theory Spec2Isabelle
  imports
    Main
    "HOL-Library.Char_ord"
    "HOL-Library.List_Lexorder"
    "HOL-Library.Product_Lexorder"
    "HOL-Library.Multiset"
begin

section \<open>The table personal_info\<close>

text \<open>
  SQL.py keeps one SQLite table, created by \<^verbatim>\<open>DatabaseManager.init_database\<close>:
  \<^verbatim>\<open>
  CREATE TABLE IF NOT EXISTS personal_info (
    id INTEGER PRIMARY KEY AUTOINCREMENT,
    title TEXT NOT NULL, category TEXT, notes TEXT, priority TEXT,
    status TEXT, tags TEXT, created_at TEXT DEFAULT CURRENT_TIMESTAMP)
  \<close>
  The six columns the forms write are the record \<open>info\<close>; a stored row adds the two
  columns the engine fills in. Python's \<open>str\<close> is modelled by \<open>string\<close>, read as the
  UTF-8 bytes SQLite stores for a TEXT value. Every statement of the program binds
  \<open>str\<close> values to the six text columns, so a stored text column is a string here
  (the program never writes NULL).
\<close>

record info =
  title :: string
  category :: string
  "notes" :: string
  priority :: string
  status :: string
  tags :: string

record row = info +
  row_id :: int
  created_at :: string

text \<open>
  The database as the program sees it: the rows in storage (rowid) order, the counter
  SQLite keeps in \<open>sqlite_sequence\<close> for an AUTOINCREMENT key (the largest rowid ever
  issued for the table), and the number of connections that were opened by
  \<^verbatim>\<open>sqlite3.connect\<close> and not closed yet.
\<close>

record db =
  rows :: "row list"
  seq :: int
  open_conns :: nat

definition initial_db :: db where
  "initial_db = \<lparr>rows = [], seq = 0, open_conns = 0\<rparr>"

subsection \<open>The clock and CURRENT_TIMESTAMP\<close>

text \<open>
  The default of \<open>created_at\<close> is SQLite's CURRENT_TIMESTAMP: the current UTC time as
  the text \<^verbatim>\<open>YYYY-MM-DD HH:MM:SS\<close>. The clock is an input of the model; its
  sub-second part does not reach the text.
\<close>

record clock =
  year :: nat
  month :: nat
  day :: nat
  hour :: nat
  minute :: nat
  second :: nat
  millis :: nat

definition digit :: "nat \<Rightarrow> char" where
  "digit n = ''0123456789'' ! (n mod 10)"

definition pad2 :: "nat \<Rightarrow> string" where
  "pad2 n = [digit (n div 10), digit n]"

definition pad4 :: "nat \<Rightarrow> string" where
  "pad4 n = [digit (n div 1000), digit (n div 100), digit (n div 10), digit n]"

definition CURRENT_TIMESTAMP :: "clock \<Rightarrow> string" where
  "CURRENT_TIMESTAMP c =
     pad4 (year c) @ ''-'' @ pad2 (month c) @ ''-'' @ pad2 (day c) @ '' '' @
     pad2 (hour c) @ '':'' @ pad2 (minute c) @ '':'' @ pad2 (second c)"

subsection \<open>The statements the program sends\<close>

text \<open>
  \<^verbatim>\<open>execute_update(query, params)\<close> is called with four SQL texts, each a constant
  of the source with \<open>?\<close> placeholders, and a tuple of values to bind. A statement is
  modelled by the text it uses (the constructor) and the values bound to it (the
  arguments):
  \<^item> \<open>INSERT f\<close>: \<^verbatim>\<open>INSERT INTO personal_info (title, category, notes, priority,
    status, tags) VALUES (?, ?, ?, ?, ?, ?)\<close> with the six fields of \<open>f\<close>;
  \<^item> \<open>UPDATE f i\<close>: \<^verbatim>\<open>UPDATE personal_info SET title = ?, category = ?, notes = ?,
    priority = ?, status = ?, tags = ? WHERE id = ?\<close>;
  \<^item> \<open>DELETE_BY_ID i\<close>: \<^verbatim>\<open>DELETE FROM personal_info WHERE id = ?\<close>;
  \<^item> \<open>DELETE_ALL\<close>: \<^verbatim>\<open>DELETE FROM personal_info\<close>.
  \<^verbatim>\<open>execute_query\<close> is called with three texts.
\<close>

datatype statement =
    INSERT info
  | UPDATE info int
  | DELETE_BY_ID int
  | DELETE_ALL

datatype query =
    SELECT_ALL_ORDERED    \<comment> \<open>SELECT * FROM personal_info ORDER BY created_at DESC\<close>
  | SELECT_BY_ID int      \<comment> \<open>SELECT * FROM personal_info WHERE id = ?\<close>
  | SELECT_ALL            \<comment> \<open>SELECT * FROM personal_info\<close>

datatype sql_param = P_str string | P_int int

text \<open>The two arguments \<^verbatim>\<open>cursor.execute\<close> receives for a statement.\<close>

fun sql_text :: "statement \<Rightarrow> string" where
  "sql_text (INSERT f) =
     ''INSERT INTO personal_info (title, category, notes, priority, status, tags) VALUES (?, ?, ?, ?, ?, ?)''"
| "sql_text (UPDATE f i) =
     ''UPDATE personal_info SET title = ?, category = ?, notes = ?, priority = ?, status = ?, tags = ? WHERE id = ?''"
| "sql_text (DELETE_BY_ID i) = ''DELETE FROM personal_info WHERE id = ?''"
| "sql_text DELETE_ALL = ''DELETE FROM personal_info''"

definition info_params :: "info \<Rightarrow> sql_param list" where
  "info_params f =
     [P_str (title f), P_str (category f), P_str (notes f),
      P_str (priority f), P_str (status f), P_str (tags f)]"

fun sql_params :: "statement \<Rightarrow> sql_param list" where
  "sql_params (INSERT f) = info_params f"
| "sql_params (UPDATE f i) = info_params f @ [P_int i]"
| "sql_params (DELETE_BY_ID i) = [P_int i]"
| "sql_params DELETE_ALL = []"

subsection \<open>What the engine does with a statement\<close>

text \<open>
  An AUTOINCREMENT key: the new rowid is one more than the largest rowid the table
  ever held (the larger of \<open>sqlite_sequence\<close> and the largest rowid present); when that
  is already the largest 64-bit integer the INSERT fails (SQLITE_FULL).
\<close>

definition MAX_ROWID :: int where
  "MAX_ROWID = 2 ^ 63 - 1"

definition max_rowid :: "row list \<Rightarrow> int" where
  "max_rowid rs = fold max (map row_id rs) 0"

definition last_issued :: "db \<Rightarrow> int" where
  "last_issued d = max (seq d) (max_rowid (rows d))"

definition new_row :: "int \<Rightarrow> info \<Rightarrow> string \<Rightarrow> row" where
  "new_row i f t =
     \<lparr>title = title f, category = category f, notes = notes f, priority = priority f,
      status = status f, tags = tags f, row_id = i, created_at = t\<rparr>"

definition set_info :: "info \<Rightarrow> row \<Rightarrow> row" where
  "set_info f r =
     r\<lparr>title := title f, category := category f, notes := notes f,
       priority := priority f, status := status f, tags := tags f\<rparr>"

datatype exn = SqliteError | ValueError | IndexError

text \<open>
  \<open>run_statement\<close> gives the database after the statement and \<open>cursor.lastrowid\<close>
  (set by an INSERT only, \<open>None\<close> on a fresh cursor otherwise).
\<close>

fun run_statement :: "clock \<Rightarrow> statement \<Rightarrow> db \<Rightarrow> exn + (db \<times> int option)" where
  "run_statement c (INSERT f) d =
     (if MAX_ROWID \<le> last_issued d then Inl SqliteError
      else Inr (d\<lparr>rows := rows d @ [new_row (last_issued d + 1) f (CURRENT_TIMESTAMP c)],
                  seq := last_issued d + 1\<rparr>,
                Some (last_issued d + 1)))"
| "run_statement c (UPDATE f i) d =
     Inr (d\<lparr>rows := map (\<lambda>r. if row_id r = i then set_info f r else r) (rows d)\<rparr>, None)"
| "run_statement c (DELETE_BY_ID i) d =
     Inr (d\<lparr>rows := filter (\<lambda>r. row_id r \<noteq> i) (rows d)\<rparr>, None)"
| "run_statement c DELETE_ALL d = Inr (d\<lparr>rows := []\<rparr>, None)"

text \<open>
  ORDER BY created_at DESC compares the stored texts (bytewise, which is the order of
  \<open>string\<close> here). SQL leaves the order of rows with equal keys to the engine: the
  parameter \<open>tie\<close> is that choice.
\<close>

definition order_by_created_at_desc :: "(row \<Rightarrow> nat) \<Rightarrow> row list \<Rightarrow> row list" where
  "order_by_created_at_desc tie rs = rev (sort_key (\<lambda>r. (created_at r, tie r)) rs)"

fun run_query :: "(row \<Rightarrow> nat) \<Rightarrow> query \<Rightarrow> row list \<Rightarrow> row list" where
  "run_query tie SELECT_ALL_ORDERED rs = order_by_created_at_desc tie rs"
| "run_query tie (SELECT_BY_ID i) rs = filter (\<lambda>r. row_id r = i) rs"
| "run_query tie SELECT_ALL rs = rs"

section \<open>DatabaseManager\<close>

text \<open>
  \<^verbatim>\<open>
  def execute_query(self, query, params=()):
      conn = self.get_connection()
      df = pd.read_sql_query(query, conn, params=params)
      conn.close()
      return df

  def execute_update(self, query, params=()):
      conn = self.get_connection()
      cursor = conn.cursor()
      cursor.execute(query, params)
      conn.commit()
      last_id = cursor.lastrowid
      conn.close()
      return last_id
  \<close>
  Neither method has a \<^verbatim>\<open>try\<close>: when the execution raises, the lines after it do
  not run. Whether the engine fails on a statement for a reason outside the table
  (I/O error, locked or unreadable file) is the input \<open>fault\<close>.
\<close>

definition get_connection :: "db \<Rightarrow> db" where
  "get_connection d = d\<lparr>open_conns := open_conns d + 1\<rparr>"

definition close :: "db \<Rightarrow> db" where
  "close d = d\<lparr>open_conns := open_conns d - 1\<rparr>"

definition execute_query ::
  "bool \<Rightarrow> (row \<Rightarrow> nat) \<Rightarrow> query \<Rightarrow> db \<Rightarrow> (exn + row list) \<times> db" where
  "execute_query fault tie q d =
     (let d1 = get_connection d in
      if fault then (Inl SqliteError, d1)
      else (Inr (run_query tie q (rows d1)), close d1))"

definition execute_update ::
  "bool \<Rightarrow> clock \<Rightarrow> statement \<Rightarrow> db \<Rightarrow> (exn + int option) \<times> db" where
  "execute_update fault c s d =
     (let d1 = get_connection d in
      if fault then (Inl SqliteError, d1)
      else (case run_statement c s d1 of
              Inl e \<Rightarrow> (Inl e, d1)
            | Inr (d2, last_id) \<Rightarrow> (Inr last_id, close d2)))"

section \<open>The pages\<close>

text \<open>
  A page function of the Streamlit script reads its widgets and the database and
  shows messages. In the model the widget values are arguments, the result is the
  list of messages shown (or the exception that ended the run) and the database
  afterwards. \<open>env\<close> holds what the surroundings decide during one run: the clock, the
  engine's choice among rows with equal sort keys, and whether the engine fails on the
  listing query, on the existence check of delete_info, or on the write.
\<close>

record env =
  now :: clock
  tie :: "row \<Rightarrow> nat"
  query_fault :: bool
  check_fault :: bool
  update_fault :: bool

datatype ui =
    INFO_NO_DATA
  | ERROR_TITLE_REQUIRED
  | SUCCESS_ADDED
  | SUCCESS_UPDATED
  | ERROR_NOT_EXISTS int
  | SUCCESS_DELETED int
  | WARNING_DELETE_ALL
  | SUCCESS_DELETED_ALL
  | DATAFRAME "row list"
  | METRICS nat nat nat nat
  | DOWNLOAD_CSV string

text \<open>
  \<^verbatim>\<open>
  def add_info():
      ...
          if submitted:
              if not title:
                  st.error(...)            # title is required
              else:
                  db.execute_update(INSERT ..., (title, category, notes, priority, status, tags))
                  st.success(...)
                  st.rerun()
  \<close>
\<close>

definition add_info :: "env \<Rightarrow> info \<Rightarrow> bool \<Rightarrow> db \<Rightarrow> (exn + ui list) \<times> db" where
  "add_info e f submitted d =
     (if submitted then
        (if title f = [] then (Inr [ERROR_TITLE_REQUIRED], d)
         else (case execute_update (update_fault e) (now e) (INSERT f) d of
                 (Inl x, d') \<Rightarrow> (Inl x, d')
               | (Inr last_id, d') \<Rightarrow> (Inr [SUCCESS_ADDED], d')))
      else (Inr [], d))"

subsection \<open>The option lists of the forms\<close>

text \<open>
  The select boxes and the radio group offer fixed lists of labels. The labels are
  Chinese; each is written here as its UTF-8 bytes: honour, education, competition,
  certificate, account, other; high, medium, low; in progress, done, not started.
\<close>

definition CAT_HONOUR :: string where
  "CAT_HONOUR = [CHR 0xE8, CHR 0x8D, CHR 0xA3, CHR 0xE8, CHR 0xAA, CHR 0x89]"

definition CAT_EDUCATION :: string where
  "CAT_EDUCATION = [CHR 0xE6, CHR 0x95, CHR 0x99, CHR 0xE8, CHR 0x82, CHR 0xB2, CHR 0xE7, CHR 0xBB, CHR 0x8F, CHR 0xE5, CHR 0x8E, CHR 0x86]"

definition CAT_COMPETITION :: string where
  "CAT_COMPETITION = [CHR 0xE7, CHR 0xAB, CHR 0x9E, CHR 0xE8, CHR 0xB5, CHR 0x9B]"

definition CAT_CERTIFICATE :: string where
  "CAT_CERTIFICATE = [CHR 0xE8, CHR 0xAF, CHR 0x81, CHR 0xE4, CHR 0xB9, CHR 0xA6]"

definition CAT_ACCOUNT :: string where
  "CAT_ACCOUNT = [CHR 0xE8, CHR 0xB4, CHR 0xA6, CHR 0xE5, CHR 0x8F, CHR 0xB7]"

definition CAT_OTHER :: string where
  "CAT_OTHER = [CHR 0xE5, CHR 0x85, CHR 0xB6, CHR 0xE4, CHR 0xBB, CHR 0x96]"

definition PRIO_HIGH :: string where
  "PRIO_HIGH = [CHR 0xE9, CHR 0xAB, CHR 0x98]"

definition PRIO_MEDIUM :: string where
  "PRIO_MEDIUM = [CHR 0xE4, CHR 0xB8, CHR 0xAD]"

definition PRIO_LOW :: string where
  "PRIO_LOW = [CHR 0xE4, CHR 0xBD, CHR 0x8E]"

definition STATUS_IN_PROGRESS :: string where
  "STATUS_IN_PROGRESS = [CHR 0xE8, CHR 0xBF, CHR 0x9B, CHR 0xE8, CHR 0xA1, CHR 0x8C, CHR 0xE4, CHR 0xB8, CHR 0xAD]"

definition STATUS_DONE :: string where
  "STATUS_DONE = [CHR 0xE5, CHR 0xB7, CHR 0xB2, CHR 0xE5, CHR 0xAE, CHR 0x8C, CHR 0xE6, CHR 0x88, CHR 0x90]"

definition STATUS_NOT_STARTED :: string where
  "STATUS_NOT_STARTED = [CHR 0xE5, CHR 0xBE, CHR 0x85, CHR 0xE5, CHR 0xBC, CHR 0x80, CHR 0xE5, CHR 0xA7, CHR 0x8B]"

definition CATEGORIES :: "string list" where
  "CATEGORIES =
     [CAT_HONOUR, CAT_EDUCATION, CAT_COMPETITION, CAT_CERTIFICATE, CAT_ACCOUNT, CAT_OTHER]"

definition PRIORITIES :: "string list" where
  "PRIORITIES = [PRIO_HIGH, PRIO_MEDIUM, PRIO_LOW]"

definition STATUSES :: "string list" where
  "STATUSES = [STATUS_IN_PROGRESS, STATUS_DONE, STATUS_NOT_STARTED]"

text \<open>Python's \<^verbatim>\<open>list.index\<close>: the first position of the value, ValueError when absent.\<close>

fun list_index :: "'a list \<Rightarrow> 'a \<Rightarrow> nat option" where
  "list_index [] x = None"
| "list_index (y # ys) x = (if y = x then Some 0 else map_option Suc (list_index ys x))"

subsection \<open>show_data_overview\<close>

text \<open>
  \<^verbatim>\<open>
  df = db.execute_query("SELECT * FROM personal_info ORDER BY created_at DESC")
  if df.empty:
      st.info(...)
      return
  st.dataframe(df, use_container_width=True)
  ... st.metric(len(df)), st.metric(df["category"].nunique()),
      st.metric(len(df[df["status"] == in progress])), st.metric(len(df[df["priority"] == high]))
  \<close>
\<close>

definition show_data_overview :: "env \<Rightarrow> db \<Rightarrow> (exn + ui list) \<times> db" where
  "show_data_overview e d =
     (case execute_query (query_fault e) (tie e) SELECT_ALL_ORDERED d of
        (Inl x, d1) \<Rightarrow> (Inl x, d1)
      | (Inr df, d1) \<Rightarrow>
          if df = [] then (Inr [INFO_NO_DATA], d1)
          else (Inr [DATAFRAME df,
                     METRICS (length df) (length (remdups (map category df)))
                       (length (filter (\<lambda>r. status r = STATUS_IN_PROGRESS) df))
                       (length (filter (\<lambda>r. priority r = PRIO_HIGH) df))], d1))"

subsection \<open>edit_info\<close>

text \<open>
  \<^verbatim>\<open>
  df = db.execute_query("SELECT * FROM personal_info ORDER BY created_at DESC")
  if df.empty:
      st.info(...); return
  record_options = {f"{row['title']} (ID: {row['id']})": row['id'] for _, row in df.iterrows()}
  selected_record = st.selectbox(..., list(record_options.keys()))
  if selected_record:
      record_id = record_options[selected_record]
      record_data = df[df["id"] == record_id].iloc[0]
      with st.form("edit_form"):
          title = st.text_input(..., value=record_data["title"])
          category = st.selectbox(..., [...], index=[...].index(record_data["category"]))
          priority = st.selectbox(..., [...], index=[...].index(record_data["priority"]))
          status = st.radio(..., [...], index=[...].index(record_data["status"]))
          tags = st.text_input(..., value=record_data["tags"] or "")
          notes = st.text_area(..., value=record_data["notes"] or "", height=100)
          submitted = st.form_submit_button(...)
          if st.form_submit_button(cancel):
              st.rerun()
          if submitted:
              if not title:
                  st.error(...)
              else:
                  db.execute_update(UPDATE ... WHERE id = ?,
                                    (title, category, notes, priority, status, tags, record_id))
                  st.success(...)
                  st.rerun()
  \<close>
  The select box offers one label per listed row (a label ends with the row's id, so
  two rows never share one) and yields one of them: the user's selection is the
  position \<open>choice\<close> in the listing, and a position outside the listing stands for no
  selection. The values of the form's widgets are \<open>f\<close>; the stored values only
  pre-populate them.
\<close>

definition edit_info ::
  "env \<Rightarrow> nat \<Rightarrow> info \<Rightarrow> bool \<Rightarrow> bool \<Rightarrow> db \<Rightarrow> (exn + ui list) \<times> db" where
  "edit_info e choice f submitted cancel d =
     (case execute_query (query_fault e) (tie e) SELECT_ALL_ORDERED d of
        (Inl x, d1) \<Rightarrow> (Inl x, d1)
      | (Inr df, d1) \<Rightarrow>
          if df = [] then (Inr [INFO_NO_DATA], d1)
          else if choice < length df then
            (let record_id = row_id (df ! choice) in
             case find (\<lambda>r. row_id r = record_id) df of
               None \<Rightarrow> (Inl IndexError, d1)
             | Some record_data \<Rightarrow>
                 if list_index CATEGORIES (category record_data) = None
                    \<or> list_index PRIORITIES (priority record_data) = None
                    \<or> list_index STATUSES (status record_data) = None
                 then (Inl ValueError, d1)
                 else if cancel then (Inr [], d1)
                 else if submitted then
                   (if title f = [] then (Inr [ERROR_TITLE_REQUIRED], d1)
                    else (case execute_update (update_fault e) (now e) (UPDATE f record_id) d1 of
                            (Inl x, d2) \<Rightarrow> (Inl x, d2)
                          | (Inr last_id, d2) \<Rightarrow> (Inr [SUCCESS_UPDATED], d2)))
                 else (Inr [], d1))
          else (Inr [], d1))"

subsection \<open>delete_info\<close>

text \<open>
  \<^verbatim>\<open>
  df = db.execute_query("SELECT * FROM personal_info ORDER BY created_at DESC")
  if df.empty:
      st.info(...); return
  st.dataframe(df, use_container_width=True)
  delete_option = st.radio(..., [by id, all], horizontal=True)
  if delete_option == by id:
      record_id = st.number_input(..., min_value=1, step=1)
      if st.button(...):
          check_record = db.execute_query("SELECT * FROM personal_info WHERE id = ?", (record_id,))
          if check_record.empty:
              st.error(...)               # no record with this id
          else:
              db.execute_update("DELETE FROM personal_info WHERE id = ?", (record_id,))
              st.success(...)
              st.rerun()
  else:
      st.warning(...)
      confirm = st.checkbox(...)
      if confirm:
          if st.button(...):
              db.execute_update("DELETE FROM personal_info")
              st.success(...)
              st.rerun()
  \<close>
\<close>

datatype delete_input =
    BY_ID int bool     \<comment> \<open>the id typed in, and whether the button was clicked\<close>
  | ALL_RECORDS bool bool \<comment> \<open>the confirmation box, and whether the button was clicked\<close>

definition delete_info :: "env \<Rightarrow> delete_input \<Rightarrow> db \<Rightarrow> (exn + ui list) \<times> db" where
  "delete_info e inp d =
     (case execute_query (query_fault e) (tie e) SELECT_ALL_ORDERED d of
        (Inl x, d1) \<Rightarrow> (Inl x, d1)
      | (Inr df, d1) \<Rightarrow>
          if df = [] then (Inr [INFO_NO_DATA], d1)
          else (case inp of
            BY_ID record_id clicked \<Rightarrow>
              if clicked then
                (case execute_query (check_fault e) (tie e) (SELECT_BY_ID record_id) d1 of
                   (Inl x, d2) \<Rightarrow> (Inl x, d2)
                 | (Inr check_record, d2) \<Rightarrow>
                     if check_record = [] then
                       (Inr [DATAFRAME df, ERROR_NOT_EXISTS record_id], d2)
                     else
                       (case execute_update (update_fault e) (now e) (DELETE_BY_ID record_id) d2 of
                          (Inl x, d3) \<Rightarrow> (Inl x, d3)
                        | (Inr last_id, d3) \<Rightarrow>
                            (Inr [DATAFRAME df, SUCCESS_DELETED record_id], d3)))
              else (Inr [DATAFRAME df], d1)
          | ALL_RECORDS confirm clicked \<Rightarrow>
              if confirm \<and> clicked then
                (case execute_update (update_fault e) (now e) DELETE_ALL d1 of
                   (Inl x, d3) \<Rightarrow> (Inl x, d3)
                 | (Inr last_id, d3) \<Rightarrow>
                     (Inr [DATAFRAME df, WARNING_DELETE_ALL, SUCCESS_DELETED_ALL], d3))
              else (Inr [DATAFRAME df, WARNING_DELETE_ALL], d1)))"

subsection \<open>add_download_section\<close>

text \<open>
  \<^verbatim>\<open>
  df = db.execute_query("SELECT * FROM personal_info")
  if not df.empty:
      csv_data = df.to_csv(index=False)
      st.sidebar.download_button(..., data=csv_data, file_name=..., mime="text/csv", ...)
      ...
  \<close>
\<close>

text \<open>
  Modelled from the spec: \<^verbatim>\<open>DataFrame.to_csv\<close> is code of pandas and not of SQL.py.
  The spec describes the export as CSV text with a header row of the field names, one
  row per record, comma-delimited, with standard quoting for embedded commas and
  newlines. That is what \<^verbatim>\<open>to_csv(index=False)\<close> does through Python's
  \<^verbatim>\<open>csv.writer\<close> with its defaults: a field is put in double quotes exactly when it
  contains a comma, a double quote, a line feed or a carriage return, a double quote
  inside it is doubled, and every line ends with a line feed. The integer column is
  written in decimal.
\<close>

definition QUOTE :: char where
  "QUOTE = CHR 0x22"

definition COMMA :: char where
  "COMMA = CHR 0x2C"

definition LF :: char where
  "LF = CHR 0x0A"

definition CR :: char where
  "CR = CHR 0x0D"

definition special :: "char \<Rightarrow> bool" where
  "special c \<longleftrightarrow> c = COMMA \<or> c = QUOTE \<or> c = LF \<or> c = CR"

definition double_quotes :: "string \<Rightarrow> string" where
  "double_quotes s = concat (map (\<lambda>c. if c = QUOTE then [QUOTE, QUOTE] else [c]) s)"

definition csv_field :: "string \<Rightarrow> string" where
  "csv_field s = (if list_ex special s then QUOTE # double_quotes s @ [QUOTE] else s)"

fun join_comma :: "string list \<Rightarrow> string" where
  "join_comma [] = []"
| "join_comma [x] = x"
| "join_comma (x # y # ys) = x @ COMMA # join_comma (y # ys)"

definition csv_line :: "string list \<Rightarrow> string" where
  "csv_line cells = join_comma (map csv_field cells) @ [LF]"

fun digits :: "nat \<Rightarrow> string" where
  "digits n = (if n < 10 then [digit n] else digits (n div 10) @ [digit n])"

definition str_int :: "int \<Rightarrow> string" where
  "str_int i = (if i < 0 then CHR ''-'' # digits (nat (- i)) else digits (nat i))"

definition COLUMNS :: "string list" where
  "COLUMNS = [''id'', ''title'', ''category'', ''notes'', ''priority'', ''status'', ''tags'',
              ''created_at'']"

definition row_cells :: "row \<Rightarrow> string list" where
  "row_cells r = [str_int (row_id r), title r, category r, notes r, priority r, status r,
                  tags r, created_at r]"

definition to_csv :: "row list \<Rightarrow> string" where
  "to_csv df = concat (map csv_line (COLUMNS # map row_cells df))"

definition add_download_section :: "env \<Rightarrow> db \<Rightarrow> (exn + ui list) \<times> db" where
  "add_download_section e d =
     (case execute_query (query_fault e) (tie e) SELECT_ALL d of
        (Inl x, d1) \<Rightarrow> (Inl x, d1)
      | (Inr df, d1) \<Rightarrow>
          if df \<noteq> [] then (Inr [DOWNLOAD_CSV (to_csv df)], d1)
          else (Inr [], d1))"

subsection \<open>Reading a CSV file back\<close>

text \<open>
  Modelled from the spec: the program has no CSV reader; the spec speaks of re-reading
  the exported text. This is a reader of the format above that keeps every field as
  text: a field that starts with a double quote runs to its closing quote (a doubled
  quote inside stands for one quote), any other field runs to the next comma or line
  feed; a line feed outside quotes ends the record; an empty line gives a record
  without fields. The state says where in a field the reader is; \<open>fld\<close>, \<open>cells\<close> and
  \<open>recs\<close> are the field, the record and the records read so far.
\<close>

datatype reader_state = START_FIELD | IN_FIELD | IN_QUOTED_FIELD | QUOTE_IN_QUOTED_FIELD

fun csv_reader ::
  "reader_state \<Rightarrow> string \<Rightarrow> string list \<Rightarrow> string list list \<Rightarrow> string \<Rightarrow> string list list"
  where
  "csv_reader st fld cells recs [] =
     (if st = START_FIELD \<and> cells = [] then recs else recs @ [cells @ [fld]])"
| "csv_reader START_FIELD fld cells recs (c # cs) =
     (if c = QUOTE then csv_reader IN_QUOTED_FIELD [] cells recs cs
      else if c = COMMA then csv_reader START_FIELD [] (cells @ [[]]) recs cs
      else if c = LF then
        csv_reader START_FIELD [] [] (recs @ [if cells = [] then [] else cells @ [[]]]) cs
      else csv_reader IN_FIELD [c] cells recs cs)"
| "csv_reader IN_FIELD fld cells recs (c # cs) =
     (if c = COMMA then csv_reader START_FIELD [] (cells @ [fld]) recs cs
      else if c = LF then csv_reader START_FIELD [] [] (recs @ [cells @ [fld]]) cs
      else csv_reader IN_FIELD (fld @ [c]) cells recs cs)"
| "csv_reader IN_QUOTED_FIELD fld cells recs (c # cs) =
     (if c = QUOTE then csv_reader QUOTE_IN_QUOTED_FIELD fld cells recs cs
      else csv_reader IN_QUOTED_FIELD (fld @ [c]) cells recs cs)"
| "csv_reader QUOTE_IN_QUOTED_FIELD fld cells recs (c # cs) =
     (if c = QUOTE then csv_reader IN_QUOTED_FIELD (fld @ [QUOTE]) cells recs cs
      else if c = COMMA then csv_reader START_FIELD [] (cells @ [fld]) recs cs
      else if c = LF then csv_reader START_FIELD [] [] (recs @ [cells @ [fld]]) cs
      else csv_reader IN_FIELD (fld @ [c]) cells recs cs)"

text \<open>The records after the header line, each as the six form fields it holds.\<close>

fun cells_info :: "string list \<Rightarrow> info option" where
  "cells_info [i, t, c, n, p, s, g, ca] =
     Some \<lparr>title = t, category = c, notes = n, priority = p, status = s, tags = g\<rparr>"
| "cells_info cells = None"

definition read_csv :: "string \<Rightarrow> info option list" where
  "read_csv s = map cells_info (tl (csv_reader START_FIELD [] [] [] s))"

subsection \<open>main and a session of runs\<close>

text \<open>
  \<^verbatim>\<open>
  def main():
      menu = st.sidebar.selectbox(..., [overview, add, edit, delete])
      if menu == overview: show_data_overview()
      elif menu == add: add_info()
      elif menu == edit: edit_info()
      elif menu == delete: delete_info()
  \<close>
  A menu entry comes with the values of the widgets of its page. A session is a
  sequence of script runs, each with its own surroundings.
\<close>

datatype menu =
    OVERVIEW
  | ADD info bool
  | EDIT nat info bool bool
  | DELETE delete_input

definition main :: "env \<Rightarrow> menu \<Rightarrow> db \<Rightarrow> (exn + ui list) \<times> db" where
  "main e m d =
     (case m of
        OVERVIEW \<Rightarrow> show_data_overview e d
      | ADD f submitted \<Rightarrow> add_info e f submitted d
      | EDIT choice f submitted cancel \<Rightarrow> edit_info e choice f submitted cancel d
      | DELETE inp \<Rightarrow> delete_info e inp d)"

fun session :: "(env \<times> menu) list \<Rightarrow> db \<Rightarrow> (exn + ui list) list \<times> db" where
  "session [] d = ([], d)"
| "session ((e, m) # rest) d =
     (case main e m d of (out, d1) \<Rightarrow>
        (case session rest d1 of (outs, d2) \<Rightarrow> (out # outs, d2)))"

text \<open>The number of runs of a session that showed the success message of add_info.\<close>

definition successful_inserts :: "(exn + ui list) list \<Rightarrow> nat" where
  "successful_inserts outs = length (filter (\<lambda>out. out = Inr [SUCCESS_ADDED]) outs)"

fun is_delete :: "menu \<Rightarrow> bool" where
  "is_delete (DELETE inp) = True"
| "is_delete m = False"

text \<open>A sequence of calls of \<^verbatim>\<open>execute_update\<close>, and the ids its INSERTs returned.\<close>

fun run_updates ::
  "(bool \<times> clock \<times> statement) list \<Rightarrow> db \<Rightarrow> (exn + int option) list \<times> db" where
  "run_updates [] d = ([], d)"
| "run_updates ((fault, c, s) # rest) d =
     (case execute_update fault c s d of (out, d1) \<Rightarrow>
        (case run_updates rest d1 of (outs, d2) \<Rightarrow> (out # outs, d2)))"

fun inserted_ids :: "(exn + int option) list \<Rightarrow> int list" where
  "inserted_ids [] = []"
| "inserted_ids (Inr (Some i) # outs) = i # inserted_ids outs"
| "inserted_ids (out # outs) = inserted_ids outs"

subsection \<open>The key invariant\<close>

text \<open>
  What the primary key and the AUTOINCREMENT counter maintain: the ids of the stored rows
  are distinct and none is above the counter. The empty database satisfies it and every
  statement of the program keeps it. \<open>frame d d'\<close> relates a database to a later one:
  every row of the later one either has the id and created_at of a row of the earlier
  one, or an id that was issued after it.
\<close>

definition key_invariant :: "db \<Rightarrow> bool" where
  "key_invariant d \<longleftrightarrow> max_rowid (rows d) \<le> seq d \<and> distinct (map row_id (rows d))"

definition frame :: "db \<Rightarrow> db \<Rightarrow> bool" where
  "frame d d' \<longleftrightarrow>
     (\<forall>r' \<in> set (rows d').
        (\<exists>r \<in> set (rows d). row_id r = row_id r' \<and> created_at r = created_at r') \<or>
        seq d < row_id r')"

section \<open>Example inputs\<close>

text \<open>Concrete inputs on which the theorems below are instantiated.\<close>

definition clock0 :: clock where
  "clock0 = \<lparr>year = 2024, month = 5, day = 17, hour = 9, minute = 30, second = 7,
              millis = 120\<rparr>"

definition env0 :: env where
  "env0 = \<lparr>now = clock0, tie = (\<lambda>r. 0), query_fault = False, check_fault = False,
            update_fault = False\<rparr>"

definition info0 :: info where
  "info0 = \<lparr>title = ''Model Student Award'', category = CAT_HONOUR, notes = [],
             priority = PRIO_HIGH, status = STATUS_IN_PROGRESS, tags = ''school,2024''\<rparr>"

definition row1 :: row where
  "row1 = new_row 1 info0 ''2024-05-17 09:30:07''"

definition db1 :: db where
  "db1 = \<lparr>rows = [row1], seq = 1, open_conns = 0\<rparr>"

definition info1 :: info where
  "info1 = \<lparr>title = ''Merit Scholarship'', category = CAT_EDUCATION, notes = ''second term'',
             priority = PRIO_LOW, status = STATUS_DONE, tags = ''school''\<rparr>"

definition info_misc :: info where
  "info_misc = info0\<lparr>category := ''misc''\<rparr>"

definition db_misc :: db where
  "db_misc = \<lparr>rows = [new_row 1 info_misc ''2024-05-17 09:30:07''], seq = 1, open_conns = 0\<rparr>"

definition env1 :: env where
  "env1 = env0\<lparr>now := clock0\<lparr>millis := 870\<rparr>\<rparr>"

definition row2 :: row where
  "row2 = new_row 2 info1 ''2024-05-17 09:30:07''"

definition db2 :: db where
  "db2 = \<lparr>rows = [row1, row2], seq = 2, open_conns = 0\<rparr>"

definition updates0 :: "(bool \<times> clock \<times> statement) list" where
  "updates0 = [(False, clock0, INSERT info0), (False, clock0, DELETE_BY_ID 1),
               (False, clock0, INSERT info1)]"

definition info_inject :: info where
  "info_inject = \<lparr>title = ''x'); DROP TABLE personal_info; --'', category = CAT_OTHER,
     notes = ''a, b'', priority = PRIO_LOW, status = STATUS_DONE, tags = '' OR 1=1''\<rparr>"

definition row_csv :: row where
  "row_csv = \<lparr>title = ''a,b'', category = ''c'',
     notes = ''say '' @ [QUOTE] @ ''hi'' @ [QUOTE, LF] @ ''bye'', priority = ''p'',
     status = ''s'', tags = [], row_id = 3, created_at = ''2024-05-17 09:30:07''\<rparr>"

definition row_csv2 :: row where
  "row_csv2 = \<lparr>title = ''x'' @ [CR] @ ''y'', category = [], notes = [], priority = [],
     status = [], tags = ''t'' @ [QUOTE], row_id = - 12, created_at = ''2024-05-17 09:30:08''\<rparr>"

section \<open>Basic facts about the connection and the two execute methods\<close>

lemma get_connection_simps [simp]:
  "rows (get_connection d) = rows d"
  "seq (get_connection d) = seq d"
  "open_conns (get_connection d) = open_conns d + 1"
  by (simp_all add: get_connection_def)

lemma close_simps [simp]:
  "rows (close d) = rows d"
  "seq (close d) = seq d"
  "open_conns (close d) = open_conns d - 1"
  by (simp_all add: close_def)

lemma last_issued_get_connection [simp]: "last_issued (get_connection d) = last_issued d"
  by (simp add: last_issued_def)

lemma close_get_connection [simp]: "close (get_connection d) = d"
  by (simp add: close_def get_connection_def)

lemma close_update_rows [simp]:
  "close (get_connection d\<lparr>rows := rs\<rparr>) = d\<lparr>rows := rs\<rparr>"
  "close (get_connection d\<lparr>rows := rs, seq := k\<rparr>) = d\<lparr>rows := rs, seq := k\<rparr>"
  by (simp_all add: close_def get_connection_def)

lemma execute_update_fault:
  "execute_update True c s d = (Inl SqliteError, get_connection d)"
  by (simp add: execute_update_def)

lemma execute_update_run:
  "execute_update False c s d =
     (case run_statement c s d of
        Inl x \<Rightarrow> (Inl x, get_connection d)
      | Inr (d2, last_id) \<Rightarrow> (Inr last_id, d2))"
  by (cases s) (simp_all add: execute_update_def)

lemma execute_query_fault:
  "execute_query True t q d = (Inl SqliteError, get_connection d)"
  by (simp add: execute_query_def)

lemma execute_query_run:
  "execute_query False t q d = (Inr (run_query t q (rows d)), d)"
  by (simp add: execute_query_def)

lemma truncate_new_row [simp]: "info.truncate (new_row i f t) = f"
  by (simp add: info.truncate_def new_row_def)

lemma last_issued_initial [simp]: "last_issued initial_db = 0"
  by (simp add: last_issued_def initial_db_def max_rowid_def)

lemma MAX_ROWID_pos [simp]: "0 < MAX_ROWID"
  by (simp add: MAX_ROWID_def)

lemma CURRENT_TIMESTAMP_clock0: "CURRENT_TIMESTAMP clock0 = ''2024-05-17 09:30:07''"
  by (simp add: CURRENT_TIMESTAMP_def clock0_def pad2_def pad4_def digit_def)

lemma add_info_initial: "add_info env0 info0 True initial_db = (Inr [SUCCESS_ADDED], db1)"
  by (simp add: add_info_def execute_update_run env0_def CURRENT_TIMESTAMP_clock0 db1_def row1_def
      info0_def initial_db_def last_issued_def max_rowid_def MAX_ROWID_def)

lemma set_order_by [simp]: "set (order_by_created_at_desc t rs) = set rs"
  by (simp add: order_by_created_at_desc_def)

lemma length_order_by [simp]: "length (order_by_created_at_desc t rs) = length rs"
  by (simp add: order_by_created_at_desc_def)

lemma mset_order_by [simp]: "mset (order_by_created_at_desc t rs) = mset rs"
  by (simp add: order_by_created_at_desc_def)

lemma order_by_Nil [simp]: "order_by_created_at_desc t rs = [] \<longleftrightarrow> rs = []"
  using length_order_by [of t rs] by (metis length_0_conv)

lemma map_update_absent:
  "i \<notin> row_id ` set rs \<Longrightarrow> map (\<lambda>r. if row_id r = i then g r else r) rs = rs"
  by (induction rs) auto

lemma filter_eq_absent:
  "i \<notin> row_id ` set rs \<Longrightarrow> filter (\<lambda>r. row_id r = i) rs = []"
  by (induction rs) auto

lemma filter_neq_absent:
  "i \<notin> row_id ` set rs \<Longrightarrow> filter (\<lambda>r. row_id r \<noteq> i) rs = rs"
  by (induction rs) auto

lemma update_rows_same [simp]: "d\<lparr>rows := rows d\<rparr> = d"
  by simp

lemma execute_update_absent:
  assumes "i \<notin> row_id ` set (rows d)"
  shows "execute_update False c (UPDATE f i) d = (Inr None, d)"
    and "execute_update False c (DELETE_BY_ID i) d = (Inr None, d)"
  using assms by (simp_all add: execute_update_run map_update_absent filter_neq_absent)

lemma delete_info_absent:
  assumes "i \<notin> row_id ` set (rows d)" "\<not> query_fault e" "\<not> check_fault e"
  shows "delete_info e (BY_ID i True) d =
     (if rows d = [] then (Inr [INFO_NO_DATA], d)
      else (Inr [DATAFRAME (order_by_created_at_desc (tie e) (rows d)), ERROR_NOT_EXISTS i], d))"
  using assms by (simp add: delete_info_def execute_query_run filter_eq_absent)

lemma rows_execute_query [simp]: "rows (snd (execute_query fl t q d)) = rows d"
  by (cases fl) (simp_all add: execute_query_fault execute_query_run)

lemma seq_execute_query [simp]: "seq (snd (execute_query fl t q d)) = seq d"
  by (cases fl) (simp_all add: execute_query_fault execute_query_run)

lemma delete_info_absent_rows:
  assumes "i \<notin> row_id ` set (rows d)"
  shows "rows (snd (delete_info e (BY_ID i clicked) d)) = rows d"
  using assms
  by (cases "query_fault e"; cases "check_fault e"; cases "update_fault e")
     (simp_all add: delete_info_def execute_query_run execute_query_fault execute_update_fault
        execute_update_run filter_eq_absent)


lemma edit_info_success:
  assumes "edit_info e choice f submitted cancel d = (Inr [SUCCESS_UPDATED], d')"
  shows "\<not> query_fault e \<and> \<not> update_fault e \<and> submitted \<and> \<not> cancel \<and> title f \<noteq> [] \<and>
         choice < length (rows d) \<and>
         d' = d\<lparr>rows := map (\<lambda>r. if row_id r =
                   row_id (order_by_created_at_desc (tie e) (rows d) ! choice)
                 then set_info f r else r) (rows d)\<rparr>"
proof (cases "query_fault e")
  case True
  with assms show ?thesis
    by (simp add: edit_info_def execute_query_fault)
next
  case qf: False
  show ?thesis
  proof (cases "update_fault e")
    case True
    with assms qf show ?thesis
      by (simp add: edit_info_def execute_query_run execute_update_fault Let_def
          split: if_splits option.splits)
  next
    case False
    with assms qf show ?thesis
      by (simp add: edit_info_def execute_query_run execute_update_run Let_def
          split: if_splits option.splits)
  qed
qed

lemma row_id_set_info [simp]: "row_id (set_info f r) = row_id r"
  by (simp add: set_info_def)

lemma created_at_set_info [simp]: "created_at (set_info f r) = created_at r"
  by (simp add: set_info_def)

lemma truncate_set_info [simp]: "info.truncate (set_info f r) = f"
  by (simp add: set_info_def info.truncate_def)

lemma distinct_map_update:
  assumes "distinct (map row_id rs)" "k < length rs"
  shows "map (\<lambda>r. if row_id r = row_id (rs ! k) then g r else r) rs = rs[k := g (rs ! k)]"
proof (rule nth_equalityI)
  show "length (map (\<lambda>r. if row_id r = row_id (rs ! k) then g r else r) rs) =
        length (rs[k := g (rs ! k)])"
    by simp
next
  fix j
  assume "j < length (map (\<lambda>r. if row_id r = row_id (rs ! k) then g r else r) rs)"
  then have j: "j < length rs"
    by simp
  have "row_id (rs ! j) = row_id (rs ! k) \<longleftrightarrow> j = k"
    using assms j nth_eq_iff_index_eq [of "map row_id rs" j k] by simp
  with j assms(2)
  show "map (\<lambda>r. if row_id r = row_id (rs ! k) then g r else r) rs ! j = rs[k := g (rs ! k)] ! j"
    by (auto simp: nth_list_update)
qed

lemma distinct_filter_key:
  assumes "distinct (map row_id rs)" "k < length rs"
  shows "filter (\<lambda>r. row_id r = row_id (rs ! k)) rs = [rs ! k]"
  using assms
proof (induction rs arbitrary: k)
  case Nil
  then show ?case by simp
next
  case (Cons a rs)
  from Cons.prems have a: "row_id a \<notin> row_id ` set rs" and d: "distinct (map row_id rs)"
    by simp_all
  show ?case
  proof (cases k)
    case 0
    from a have "filter (\<lambda>r. row_id r = row_id a) rs = []"
      by (simp add: filter_eq_absent)
    with 0 show ?thesis by simp
  next
    case (Suc n)
    with Cons.prems have n: "n < length rs"
      by simp
    then have "rs ! n \<in> set rs"
      by simp
    with a have "row_id a \<noteq> row_id (rs ! n)"
      by blast
    with Suc n d Cons.IH [of n] show ?thesis by simp
  qed
qed

section \<open>Inserting: the title is validated\<close>

text \<open>
  C1. A submitted add form with an empty title shows the title-required error (the
  program's validation failure) and leaves the database as it was, so the table keeps
  its row count and its content. A submitted form with a non-empty title, when the
  engine executes the INSERT (no engine fault, rowids not exhausted), shows the
  success message and appends exactly one row, which carries the submitted fields.
\<close>

theorem add_info_title_validation:
  assumes "add_info e f True d = (out, d')"
  shows "(title f = [] \<longrightarrow> out = Inr [ERROR_TITLE_REQUIRED] \<and> d' = d) \<and>
         (title f \<noteq> [] \<and> \<not> update_fault e \<and> last_issued d < MAX_ROWID \<longrightarrow>
            out = Inr [SUCCESS_ADDED] \<and> length (rows d') = length (rows d) + 1 \<and>
            (\<exists>r. rows d' = rows d @ [r] \<and> info.truncate r = f))"
  using assms by (auto simp: add_info_def execute_update_run)

theorem add_info_title_validation_witness:
  "title info0 \<noteq> [] \<and> \<not> update_fault env0 \<and> last_issued initial_db < MAX_ROWID \<and>
   fst (add_info env0 info0 True initial_db) = Inr [SUCCESS_ADDED] \<and>
   length (rows (snd (add_info env0 info0 True initial_db))) = length (rows initial_db) + 1 \<and>
   title (info0\<lparr>title := []\<rparr>) = [] \<and>
   add_info env0 (info0\<lparr>title := []\<rparr>) True initial_db =
     (Inr [ERROR_TITLE_REQUIRED], initial_db)"
proof -
  have h: "title info0 \<noteq> [] \<and> \<not> update_fault env0 \<and> last_issued initial_db < MAX_ROWID"
    by (simp add: info0_def env0_def)
  have g: "title (info0\<lparr>title := []\<rparr>) = []"
    by simp
  show ?thesis
    using h g
      add_info_title_validation [where e = env0 and f = info0 and d = initial_db,
        OF surjective_pairing]
      add_info_title_validation [where e = env0 and f = "info0\<lparr>title := []\<rparr>"
        and d = initial_db, OF surjective_pairing]
    by (simp add: prod_eq_iff)
qed

section \<open>Updating the selected record\<close>

lemma list_index_row1:
  "list_index CATEGORIES (category row1) \<noteq> None"
  "list_index PRIORITIES (priority row1) \<noteq> None"
  "list_index STATUSES (status row1) \<noteq> None"
  by (simp_all add: row1_def new_row_def info0_def CATEGORIES_def PRIORITIES_def STATUSES_def)

lemma order_by_single [simp]: "order_by_created_at_desc t [r] = [r]"
  by (simp add: order_by_created_at_desc_def)

lemma edit_info_db1:
  "edit_info env0 0 info1 True False db1 =
     (Inr [SUCCESS_UPDATED], db1\<lparr>rows := [set_info info1 row1]\<rparr>)"
  using list_index_row1
  by (simp add: edit_info_def execute_query_run execute_update_run env0_def db1_def info1_def)

lemma map_row_id_update:
  "k < length rs \<Longrightarrow> row_id r' = row_id (rs ! k) \<Longrightarrow> map row_id (rs[k := r']) = map row_id rs"
  by (simp add: list_eq_iff_nth_eq nth_list_update)

text \<open>
  C3. Whenever edit_info reports a successful update (which needs a non-empty title),
  on a table whose ids are distinct (the primary key), exactly one stored row changes:
  the row \<open>k\<close> that was selected in the listing. Its six form fields become the
  submitted ones, its id and created_at stay, every other row (and the AUTOINCREMENT
  counter) stays, and reading that id afterwards returns exactly the new row.
\<close>

theorem edit_info_updates_selected_row:
  assumes "edit_info e choice f submitted cancel d = (Inr [SUCCESS_UPDATED], d')"
    and "distinct (map row_id (rows d))"
  shows "\<exists>k < length (rows d).
           rows d ! k = order_by_created_at_desc (tie e) (rows d) ! choice \<and>
           title f \<noteq> [] \<and>
           rows d' = (rows d)[k := set_info f (rows d ! k)] \<and>
           info.truncate (rows d' ! k) = f \<and>
           row_id (rows d' ! k) = row_id (rows d ! k) \<and>
           created_at (rows d' ! k) = created_at (rows d ! k) \<and>
           (\<forall>j < length (rows d). j \<noteq> k \<longrightarrow> rows d' ! j = rows d ! j) \<and>
           seq d' = seq d \<and>
           fst (execute_query False t (SELECT_BY_ID (row_id (rows d ! k))) d') = Inr [rows d' ! k]"
proof -
  let ?r = "order_by_created_at_desc (tie e) (rows d) ! choice"
  from edit_info_success [OF assms(1)] have c: "choice < length (rows d)"
    and ti: "title f \<noteq> []"
    and d': "d' = d\<lparr>rows := map (\<lambda>r. if row_id r = row_id ?r then set_info f r else r) (rows d)\<rparr>"
    by simp_all
  from c have "?r \<in> set (order_by_created_at_desc (tie e) (rows d))"
    by (intro nth_mem) simp
  then have "?r \<in> set (rows d)"
    by simp
  then obtain k where k: "k < length (rows d)" and rk: "rows d ! k = ?r"
    by (auto simp: in_set_conv_nth)
  have upd: "rows d' = (rows d)[k := set_info f (rows d ! k)]"
    using d' distinct_map_update [OF assms(2) k, of "set_info f"] rk by simp
  have dist': "distinct (map row_id (rows d'))"
    using assms(2) k upd by (simp add: map_row_id_update)
  have k': "k < length (rows d')"
    using k upd by simp
  have idk: "row_id (rows d' ! k) = row_id (rows d ! k)"
    using k upd by simp
  have "filter (\<lambda>r. row_id r = row_id (rows d' ! k)) (rows d') = [rows d' ! k]"
    using dist' k' by (rule distinct_filter_key)
  then have rd: "fst (execute_query False t (SELECT_BY_ID (row_id (rows d ! k))) d') =
      Inr [rows d' ! k]"
    using idk by (simp add: execute_query_run)
  have "rows d ! k = ?r \<and> title f \<noteq> [] \<and>
           rows d' = (rows d)[k := set_info f (rows d ! k)] \<and>
           info.truncate (rows d' ! k) = f \<and>
           row_id (rows d' ! k) = row_id (rows d ! k) \<and>
           created_at (rows d' ! k) = created_at (rows d ! k) \<and>
           (\<forall>j < length (rows d). j \<noteq> k \<longrightarrow> rows d' ! j = rows d ! j) \<and>
           seq d' = seq d \<and>
           fst (execute_query False t (SELECT_BY_ID (row_id (rows d ! k))) d') = Inr [rows d' ! k]"
    using rk ti upd k rd d' by simp
  with k show ?thesis
    by blast
qed

theorem edit_info_updates_selected_row_witness:
  "edit_info env0 0 info1 True False db1 =
     (Inr [SUCCESS_UPDATED], db1\<lparr>rows := [set_info info1 row1]\<rparr>) \<and>
   distinct (map row_id (rows db1)) \<and>
   (\<exists>k < length (rows db1).
      rows (db1\<lparr>rows := [set_info info1 row1]\<rparr>) =
        (rows db1)[k := set_info info1 (rows db1 ! k)] \<and>
      info.truncate (rows (db1\<lparr>rows := [set_info info1 row1]\<rparr>) ! k) = info1 \<and>
      created_at (rows (db1\<lparr>rows := [set_info info1 row1]\<rparr>) ! k) = ''2024-05-17 09:30:07'')"
proof -
  have h: "distinct (map row_id (rows db1))"
    by (simp add: db1_def)
  from edit_info_updates_selected_row [OF edit_info_db1 h, of "\<lambda>r. 0"]
  obtain k where "k < length (rows db1)"
    and "rows (db1\<lparr>rows := [set_info info1 row1]\<rparr>) =
           (rows db1)[k := set_info info1 (rows db1 ! k)]"
    and "info.truncate (rows (db1\<lparr>rows := [set_info info1 row1]\<rparr>) ! k) = info1"
    and "created_at (rows (db1\<lparr>rows := [set_info info1 row1]\<rparr>) ! k) =
           created_at (rows db1 ! k)"
    by blast
  moreover from this(1) have "created_at (rows db1 ! k) = ''2024-05-17 09:30:07''"
    by (simp add: db1_def row1_def new_row_def)
  ultimately show ?thesis
    using edit_info_db1 h by auto
qed

section \<open>An id that is not in the table\<close>

text \<open>
  C2 (as the code has it). For an id that no row has: delete_info by id never changes
  the table; when the table has rows and both queries run it shows the not-exists error
  and leaves the database as it was (on an empty table the page only reports that there
  is no data). The UPDATE statement for such an id changes nothing and returns normally:
  the program has no not-found error for an update. edit_info takes the id from the
  listing it has just read, so every update it performs is on the id of a stored row.
\<close>

theorem absent_id_table_unchanged:
  "(i \<notin> row_id ` set (rows d) \<longrightarrow>
      rows (snd (delete_info e (BY_ID i clicked) d)) = rows d \<and>
      (\<not> query_fault e \<and> \<not> check_fault e \<and> rows d \<noteq> [] \<longrightarrow>
         delete_info e (BY_ID i True) d =
           (Inr [DATAFRAME (order_by_created_at_desc (tie e) (rows d)), ERROR_NOT_EXISTS i], d)) \<and>
      (\<not> query_fault e \<and> rows d = [] \<longrightarrow>
         delete_info e (BY_ID i True) d = (Inr [INFO_NO_DATA], d)) \<and>
      execute_update False c (UPDATE f i) d = (Inr None, d)) \<and>
   (edit_info e choice f submitted cancel d = (Inr [SUCCESS_UPDATED], d') \<longrightarrow>
      (\<exists>r \<in> set (rows d). d' = snd (execute_update False (now e) (UPDATE f (row_id r)) d)))"
proof (intro conjI impI)
  assume a: "i \<notin> row_id ` set (rows d)"
  show "rows (snd (delete_info e (BY_ID i clicked) d)) = rows d"
    using a by (rule delete_info_absent_rows)
  show "execute_update False c (UPDATE f i) d = (Inr None, d)"
    using a by (rule execute_update_absent)
  {
    assume "\<not> query_fault e \<and> \<not> check_fault e \<and> rows d \<noteq> []"
    then show "delete_info e (BY_ID i True) d =
           (Inr [DATAFRAME (order_by_created_at_desc (tie e) (rows d)), ERROR_NOT_EXISTS i], d)"
      using a by (simp add: delete_info_absent)
  }
  {
    assume "\<not> query_fault e \<and> rows d = []"
    then show "delete_info e (BY_ID i True) d = (Inr [INFO_NO_DATA], d)"
      by (simp add: delete_info_def execute_query_run)
  }
next
  assume s: "edit_info e choice f submitted cancel d = (Inr [SUCCESS_UPDATED], d')"
  let ?r = "order_by_created_at_desc (tie e) (rows d) ! choice"
  from edit_info_success [OF s] have c: "choice < length (rows d)"
    and d': "d' = d\<lparr>rows := map (\<lambda>r. if row_id r = row_id ?r then set_info f r else r) (rows d)\<rparr>"
    by simp_all
  from c have "?r \<in> set (order_by_created_at_desc (tie e) (rows d))"
    by (intro nth_mem) simp
  then have "?r \<in> set (rows d)"
    by simp
  moreover have "d' = snd (execute_update False (now e) (UPDATE f (row_id ?r)) d)"
    using d' by (simp add: execute_update_run)
  ultimately show "\<exists>r \<in> set (rows d). d' = snd (execute_update False (now e) (UPDATE f (row_id r)) d)"
    by blast
qed

theorem absent_id_table_unchanged_witness:
  "7 \<notin> row_id ` set (rows db1) \<and> \<not> query_fault env0 \<and> \<not> check_fault env0 \<and> rows db1 \<noteq> [] \<and>
   delete_info env0 (BY_ID 7 True) db1 = (Inr [DATAFRAME [row1], ERROR_NOT_EXISTS 7], db1) \<and>
   execute_update False clock0 (UPDATE info1 7) db1 = (Inr None, db1) \<and>
   7 \<notin> row_id ` set (rows initial_db) \<and> rows initial_db = [] \<and>
   delete_info env0 (BY_ID 7 True) initial_db = (Inr [INFO_NO_DATA], initial_db) \<and>
   edit_info env0 0 info1 True False db1 =
     (Inr [SUCCESS_UPDATED], db1\<lparr>rows := [set_info info1 row1]\<rparr>) \<and>
   (\<exists>r \<in> set (rows db1). db1\<lparr>rows := [set_info info1 row1]\<rparr> =
      snd (execute_update False (now env0) (UPDATE info1 (row_id r)) db1))"
proof -
  have h1: "7 \<notin> row_id ` set (rows db1) \<and> \<not> query_fault env0 \<and> \<not> check_fault env0 \<and>
            rows db1 \<noteq> []"
    by (simp add: db1_def row1_def new_row_def env0_def)
  have h2: "7 \<notin> row_id ` set (rows initial_db) \<and> rows initial_db = []"
    by (simp add: initial_db_def)
  have t: "tie env0 = (\<lambda>r. 0)" "rows db1 = [row1]"
    by (simp_all add: env0_def db1_def)
  show ?thesis
    using h1 h2 edit_info_db1
      absent_id_table_unchanged [where i = 7 and d = db1 and e = env0 and c = clock0
        and f = info1 and choice = 0 and submitted = True and cancel = False
        and d' = "db1\<lparr>rows := [set_info info1 row1]\<rparr>"]
      absent_id_table_unchanged [where i = 7 and d = initial_db and e = env0]
    by (simp add: t)
qed

theorem update_absent_id_counterexample:
  "7 \<notin> row_id ` set (rows db1) \<and>
   execute_update False clock0 (UPDATE info0 7) db1 = (Inr None, db1)"
  by (simp add: execute_update_run db1_def row1_def new_row_def)

section \<open>The connection\<close>

text \<open>
  C7 (as the code has it). Both execute methods open a connection first. When they
  return a result, the connection has been closed again: the number of open connections
  is what it was before the call. When the execution raises (the methods have no
  \<^verbatim>\<open>try\<close>/\<^verbatim>\<open>finally\<close>), the exception leaves the method with the connection still
  open: one more open connection than before the call. An engine fault makes either
  method raise.
\<close>

theorem connection_release:
  "open_conns (snd (execute_query fault t q d)) =
     (case fst (execute_query fault t q d) of
        Inr df \<Rightarrow> open_conns d | Inl x \<Rightarrow> open_conns d + 1) \<and>
   open_conns (snd (execute_update fault c s d)) =
     (case fst (execute_update fault c s d) of
        Inr last_id \<Rightarrow> open_conns d | Inl x \<Rightarrow> open_conns d + 1) \<and>
   fst (execute_query True t q d) = Inl SqliteError \<and>
   fst (execute_update True c s d) = Inl SqliteError \<and>
   fst (execute_query False t q d) = Inr (run_query t q (rows d))"
  by (cases fault; cases s)
     (simp_all add: execute_query_fault execute_query_run execute_update_fault
        execute_update_run)

theorem connection_left_open_counterexample:
  "open_conns initial_db = 0 \<and>
   fst (execute_update True clock0 (INSERT info0) initial_db) = Inl SqliteError \<and>
   open_conns (snd (execute_update True clock0 (INSERT info0) initial_db)) = 1 \<and>
   fst (execute_query True (\<lambda>r. 0) SELECT_ALL_ORDERED initial_db) = Inl SqliteError \<and>
   open_conns (snd (execute_query True (\<lambda>r. 0) SELECT_ALL_ORDERED initial_db)) = 1"
  by (simp add: execute_update_fault execute_query_fault initial_db_def)

section \<open>Values outside the option lists\<close>

lemma list_index_None: "list_index xs x = None \<longleftrightarrow> x \<notin> set xs"
  by (induction xs) auto

lemma distinct_order_by:
  "distinct (map row_id (order_by_created_at_desc t rs)) \<longleftrightarrow> distinct (map row_id rs)"
proof -
  have "mset (map row_id (order_by_created_at_desc t rs)) = mset (map row_id rs)"
    by simp
  then show ?thesis
    by (rule mset_eq_imp_distinct_iff)
qed

lemma find_distinct_key:
  assumes "distinct (map row_id df)" "k < length df"
  shows "find (\<lambda>r. row_id r = row_id (df ! k)) df = Some (df ! k)"
proof -
  have "\<And>j. j < k \<Longrightarrow> row_id (df ! j) \<noteq> row_id (df ! k)"
    using assms nth_eq_iff_index_eq [of "map row_id df"] by fastforce
  with assms(2) show ?thesis
    unfolding find_Some_iff by blast
qed

lemma edit_info_prepopulate:
  assumes "\<not> query_fault e" "choice < length (rows d)" "distinct (map row_id (rows d))"
  shows "fst (edit_info e choice f submitted cancel d) = Inl ValueError \<longleftrightarrow>
         category (order_by_created_at_desc (tie e) (rows d) ! choice) \<notin> set CATEGORIES \<or>
         priority (order_by_created_at_desc (tie e) (rows d) ! choice) \<notin> set PRIORITIES \<or>
         status (order_by_created_at_desc (tie e) (rows d) ! choice) \<notin> set STATUSES"
proof -
  let ?df = "order_by_created_at_desc (tie e) (rows d)"
  have ne: "?df \<noteq> []"
    using assms(2) by auto
  have fd: "find (\<lambda>r. row_id r = row_id (?df ! choice)) ?df = Some (?df ! choice)"
    using assms(2,3) by (intro find_distinct_key) (simp_all add: distinct_order_by)
  show ?thesis
  proof (cases "update_fault e")
    case True
    then show ?thesis
      using assms(1,2) ne fd
      by (simp add: edit_info_def execute_query_run execute_update_fault list_index_None)
  next
    case False
    then show ?thesis
      using assms(1,2) ne fd
      by (cases "run_statement (now e) (UPDATE f (row_id (?df ! choice))) d")
         (auto simp: edit_info_def execute_query_run execute_update_run list_index_None)
  qed
qed

text \<open>
  C8 (as the code has it). Only the title is validated: a submitted add form with a
  non-empty title is stored whatever its category, priority and status are. The
  overview and the export run on any stored values. The edit form does not: it looks
  the stored category, priority and status of the selected record up in the option
  lists with \<^verbatim>\<open>list.index\<close>, and edit_info ends with ValueError exactly when one of
  them is not in its list.
\<close>

theorem out_of_enumeration_values:
  "(title f \<noteq> [] \<and> \<not> update_fault e \<and> last_issued d < MAX_ROWID \<longrightarrow>
      (\<exists>r. add_info e f True d = (Inr [SUCCESS_ADDED], d\<lparr>rows := rows d @ [r], seq := row_id r\<rparr>) \<and>
           category r = category f \<and> priority r = priority f \<and> status r = status f)) \<and>
   (\<not> query_fault e \<longrightarrow>
      (\<exists>msgs. show_data_overview e d = (Inr msgs, d)) \<and>
      (\<exists>msgs. add_download_section e d = (Inr msgs, d))) \<and>
   (\<not> query_fault e \<and> choice < length (rows d) \<and> distinct (map row_id (rows d)) \<longrightarrow>
      (fst (edit_info e choice g submitted cancel d) = Inl ValueError \<longleftrightarrow>
         category (order_by_created_at_desc (tie e) (rows d) ! choice) \<notin> set CATEGORIES \<or>
         priority (order_by_created_at_desc (tie e) (rows d) ! choice) \<notin> set PRIORITIES \<or>
         status (order_by_created_at_desc (tie e) (rows d) ! choice) \<notin> set STATUSES))"
proof (intro conjI impI)
  assume a: "title f \<noteq> [] \<and> \<not> update_fault e \<and> last_issued d < MAX_ROWID"
  let ?r = "new_row (last_issued d + 1) f (CURRENT_TIMESTAMP (now e))"
  have "add_info e f True d = (Inr [SUCCESS_ADDED], d\<lparr>rows := rows d @ [?r], seq := row_id ?r\<rparr>)"
    using a by (simp add: add_info_def execute_update_run new_row_def)
  moreover have "category ?r = category f \<and> priority ?r = priority f \<and> status ?r = status f"
    by (simp add: new_row_def)
  ultimately show "\<exists>r. add_info e f True d =
      (Inr [SUCCESS_ADDED], d\<lparr>rows := rows d @ [r], seq := row_id r\<rparr>) \<and>
      category r = category f \<and> priority r = priority f \<and> status r = status f"
    by blast
next
  assume "\<not> query_fault e"
  then show "\<exists>msgs. show_data_overview e d = (Inr msgs, d)"
    by (simp add: show_data_overview_def execute_query_run)
next
  assume "\<not> query_fault e"
  then show "\<exists>msgs. add_download_section e d = (Inr msgs, d)"
    by (simp add: add_download_section_def execute_query_run)
next
  assume "\<not> query_fault e \<and> choice < length (rows d) \<and> distinct (map row_id (rows d))"
  then show "fst (edit_info e choice g submitted cancel d) = Inl ValueError \<longleftrightarrow>
         category (order_by_created_at_desc (tie e) (rows d) ! choice) \<notin> set CATEGORIES \<or>
         priority (order_by_created_at_desc (tie e) (rows d) ! choice) \<notin> set PRIORITIES \<or>
         status (order_by_created_at_desc (tie e) (rows d) ! choice) \<notin> set STATUSES"
    by (intro edit_info_prepopulate) simp_all
qed

lemma misc_not_category: "''misc'' \<notin> set CATEGORIES"
  by (simp add: CATEGORIES_def CAT_HONOUR_def CAT_EDUCATION_def CAT_COMPETITION_def
      CAT_CERTIFICATE_def CAT_ACCOUNT_def CAT_OTHER_def)

lemma add_info_misc: "add_info env0 info_misc True initial_db = (Inr [SUCCESS_ADDED], db_misc)"
  by (simp add: add_info_def execute_update_run env0_def CURRENT_TIMESTAMP_clock0 db_misc_def
      info_misc_def info0_def initial_db_def last_issued_def max_rowid_def MAX_ROWID_def)

theorem edit_form_value_error_counterexample:
  "add_info env0 info_misc True initial_db = (Inr [SUCCESS_ADDED], db_misc) \<and>
   category info_misc = ''misc'' \<and> ''misc'' \<notin> set CATEGORIES \<and>
   fst (edit_info env0 0 info0 False False db_misc) = Inl ValueError"
  using misc_not_category add_info_misc
  by (simp add: edit_info_def execute_query_run env0_def db_misc_def info_misc_def
      list_index_None new_row_def)


theorem out_of_enumeration_values_witness:
  "title info_misc \<noteq> [] \<and> \<not> update_fault env0 \<and> last_issued initial_db < MAX_ROWID \<and>
   \<not> query_fault env0 \<and> 0 < length (rows db_misc) \<and> distinct (map row_id (rows db_misc)) \<and>
   (\<exists>r. add_info env0 info_misc True initial_db =
          (Inr [SUCCESS_ADDED], initial_db\<lparr>rows := rows initial_db @ [r], seq := row_id r\<rparr>) \<and>
        category r = ''misc'') \<and>
   (\<exists>msgs. show_data_overview env0 db_misc = (Inr msgs, db_misc)) \<and>
   (\<exists>msgs. add_download_section env0 db_misc = (Inr msgs, db_misc)) \<and>
   fst (edit_info env0 0 info0 True False db_misc) = Inl ValueError"
proof -
  have h1: "title info_misc \<noteq> [] \<and> \<not> update_fault env0 \<and> last_issued initial_db < MAX_ROWID"
    by (simp add: info_misc_def info0_def env0_def)
  have h2: "\<not> query_fault env0"
    by (simp add: env0_def)
  have h3: "\<not> query_fault env0 \<and> 0 < length (rows db_misc) \<and> distinct (map row_id (rows db_misc))"
    by (simp add: env0_def db_misc_def)
  have c: "category (order_by_created_at_desc (tie env0) (rows db_misc) ! 0) \<notin> set CATEGORIES"
    using misc_not_category by (simp add: db_misc_def new_row_def info_misc_def)
  note th = out_of_enumeration_values [where e = env0 and f = info_misc and g = info0
      and choice = 0 and submitted = True and cancel = False]
  have a: "\<exists>r. add_info env0 info_misc True initial_db =
          (Inr [SUCCESS_ADDED], initial_db\<lparr>rows := rows initial_db @ [r], seq := row_id r\<rparr>) \<and>
        category r = ''misc''"
  proof -
    from th [where d = initial_db] h1 obtain r where
      "add_info env0 info_misc True initial_db =
         (Inr [SUCCESS_ADDED], initial_db\<lparr>rows := rows initial_db @ [r], seq := row_id r\<rparr>)"
      and "category r = category info_misc"
      by blast
    moreover have "category info_misc = ''misc''"
      by (simp add: info_misc_def)
    ultimately show ?thesis
      by auto
  qed
  have b: "(\<exists>msgs. show_data_overview env0 db_misc = (Inr msgs, db_misc)) \<and>
           (\<exists>msgs. add_download_section env0 db_misc = (Inr msgs, db_misc))"
    using th [where d = db_misc] h2 by blast
  have "fst (edit_info env0 0 info0 True False db_misc) = Inl ValueError"
    using th [where d = db_misc] h3 c by blast
  with h1 h3 a b show ?thesis
    by blast
qed

section \<open>Listing\<close>

lemma sorted_order_by:
  "sorted_wrt (\<lambda>a b. created_at b \<le> created_at a) (order_by_created_at_desc t rs)"
proof -
  let ?k = "\<lambda>r. (created_at r, t r)"
  have "sorted (map ?k (sort_key ?k rs))"
    by (rule sorted_sort_key)
  then have "sorted_wrt (\<lambda>a b. ?k a \<le> ?k b) (sort_key ?k rs)"
    by (simp add: sorted_map)
  then have "sorted_wrt (\<lambda>a b. created_at a \<le> created_at b) (sort_key ?k rs)"
    by (rule sorted_wrt_mono_rel [rotated]) (auto simp: less_eq_prod_def)
  then show ?thesis
    by (simp add: order_by_created_at_desc_def sorted_wrt_rev)
qed

lemma rows_show_data_overview [simp]: "rows (snd (show_data_overview e d)) = rows d"
  by (cases "query_fault e")
     (simp_all add: show_data_overview_def execute_query_fault execute_query_run)

lemma length_rows_run_statement:
  "run_statement c s d = Inr (d', li) \<Longrightarrow> \<forall>f. s \<noteq> INSERT f \<Longrightarrow> \<forall>i. s \<noteq> DELETE_BY_ID i
   \<Longrightarrow> s \<noteq> DELETE_ALL \<Longrightarrow> length (rows d') = length (rows d)"
  by (cases s) auto

lemma rows_execute_update_fault [simp]: "rows (snd (execute_update True c s d)) = rows d"
  by (simp add: execute_update_fault)

lemma length_rows_edit_info [simp]:
  "length (rows (snd (edit_info e choice f submitted cancel d))) = length (rows d)"
  by (cases "query_fault e"; cases "update_fault e")
     (simp_all add: edit_info_def execute_query_fault execute_query_run execute_update_fault
        execute_update_run Let_def split: option.splits)

lemma length_rows_add_info:
  "length (rows (snd (add_info e f submitted d))) =
     length (rows d) + (if fst (add_info e f submitted d) = Inr [SUCCESS_ADDED] then 1 else 0)"
  by (cases "update_fault e")
     (simp_all add: add_info_def execute_update_fault execute_update_run)

lemma length_rows_main:
  assumes "\<not> is_delete m"
  shows "length (rows (snd (main e m d))) =
     length (rows d) + (if fst (main e m d) = Inr [SUCCESS_ADDED] then 1 else 0)"
proof (cases m)
  case OVERVIEW
  then show ?thesis
    by (cases "query_fault e")
       (simp_all add: main_def show_data_overview_def execute_query_fault execute_query_run)
next
  case (ADD f submitted)
  then show ?thesis
    by (simp add: main_def length_rows_add_info)
next
  case (EDIT choice f submitted cancel)
  have "fst (edit_info e choice f submitted cancel d) \<noteq> Inr [SUCCESS_ADDED]"
    by (cases "query_fault e"; cases "update_fault e")
       (simp_all add: edit_info_def execute_query_fault execute_query_run execute_update_fault
          execute_update_run Let_def split: option.splits)
  with EDIT show ?thesis
    by (simp add: main_def)
next
  case (DELETE inp)
  with assms show ?thesis
    by simp
qed

lemma length_rows_session:
  "session evs d = (outs, d') \<Longrightarrow> \<forall>(e, m) \<in> set evs. \<not> is_delete m \<Longrightarrow>
   length (rows d') = length (rows d) + successful_inserts outs"
proof (induction evs arbitrary: d outs d')
  case Nil
  then show ?case by (simp add: successful_inserts_def)
next
  case (Cons ev evs)
  obtain e m where ev: "ev = (e, m)"
    by (cases ev)
  obtain out d1 where m: "main e m d = (out, d1)"
    by (cases "main e m d")
  obtain outs1 d2 where s: "session evs d1 = (outs1, d2)"
    by (cases "session evs d1")
  from Cons.prems(1) ev m s have o: "outs = out # outs1" and d2: "d' = d2"
    by simp_all
  from Cons.prems(2) ev have nd: "\<not> is_delete m" and rest: "\<forall>(e, m) \<in> set evs. \<not> is_delete m"
    by simp_all
  have "length (rows d1) = length (rows d) + (if out = Inr [SUCCESS_ADDED] then 1 else 0)"
    using length_rows_main [OF nd, of e d] m by simp
  moreover have "length (rows d2) = length (rows d1) + successful_inserts outs1"
    using Cons.IH [OF s rest] .
  ultimately show ?case
    using o d2 by (simp add: successful_inserts_def)
qed


text \<open>
  C4. The listing query returns a result on every table and never fails for lack of
  rows: the result holds exactly the stored rows (as a multiset), ordered by created_at
  descending, and is empty when the table is. After a session that started on the
  empty database and never opened the delete page, it has exactly as many records as
  there were successful inserts.
\<close>

theorem list_ordered_by_created_at:
  "\<exists>out. execute_query False t SELECT_ALL_ORDERED d = (Inr out, d) \<and>
     mset out = mset (rows d) \<and>
     sorted_wrt (\<lambda>a b. created_at b \<le> created_at a) out \<and>
     (rows d = [] \<longrightarrow> out = []) \<and>
     (session evs initial_db = (outs, d) \<and> (\<forall>(e, m) \<in> set evs. \<not> is_delete m) \<longrightarrow>
        length out = successful_inserts outs)"
proof -
  let ?out = "order_by_created_at_desc t (rows d)"
  have "execute_query False t SELECT_ALL_ORDERED d = (Inr ?out, d)"
    by (simp add: execute_query_run)
  moreover have "mset ?out = mset (rows d)"
    by simp
  moreover have "sorted_wrt (\<lambda>a b. created_at b \<le> created_at a) ?out"
    by (rule sorted_order_by)
  moreover have "rows d = [] \<longrightarrow> ?out = []"
    by simp
  moreover have "session evs initial_db = (outs, d) \<and> (\<forall>(e, m) \<in> set evs. \<not> is_delete m) \<longrightarrow>
        length ?out = successful_inserts outs"
    using length_rows_session [of evs initial_db outs d] by (auto simp: initial_db_def)
  ultimately show ?thesis
    by blast
qed

lemma main_add_initial: "main env0 (ADD info0 True) initial_db = (Inr [SUCCESS_ADDED], db1)"
  unfolding main_def by (simp add: add_info_initial)

lemma session_one_add: "session [(env0, ADD info0 True)] initial_db = ([Inr [SUCCESS_ADDED]], db1)"
  by (simp add: main_add_initial)

theorem list_ordered_by_created_at_witness:
  "session [(env0, ADD info0 True)] initial_db = ([Inr [SUCCESS_ADDED]], db1) \<and>
   \<not> is_delete (ADD info0 True) \<and>
   successful_inserts [Inr [SUCCESS_ADDED]] = 1 \<and>
   execute_query False (\<lambda>r. 0) SELECT_ALL_ORDERED db1 = (Inr [row1], db1) \<and>
   rows initial_db = [] \<and>
   execute_query False (\<lambda>r. 0) SELECT_ALL_ORDERED initial_db = (Inr [], initial_db)"
proof -
  have h: "session [(env0, ADD info0 True)] initial_db = ([Inr [SUCCESS_ADDED]], db1) \<and>
           (\<forall>(e, m) \<in> set [(env0, ADD info0 True)]. \<not> is_delete m)"
    by (simp add: main_add_initial)
  have n: "successful_inserts [Inr [SUCCESS_ADDED]] = 1"
    by (simp add: successful_inserts_def)
  from list_ordered_by_created_at [where t = "\<lambda>r. 0" and d = db1
      and evs = "[(env0, ADD info0 True)]" and outs = "[Inr [SUCCESS_ADDED]]"] h n
  obtain out where q: "execute_query False (\<lambda>r. 0) SELECT_ALL_ORDERED db1 = (Inr out, db1)"
    and m: "mset out = mset (rows db1)" and "length out = 1"
    by auto
  from m have "out = [row1]"
    by (simp add: db1_def)
  with q have a: "execute_query False (\<lambda>r. 0) SELECT_ALL_ORDERED db1 = (Inr [row1], db1)"
    by simp
  have e: "rows initial_db = []"
    by (simp add: initial_db_def)
  from list_ordered_by_created_at [where t = "\<lambda>r. 0" and d = initial_db] e
  have b: "execute_query False (\<lambda>r. 0) SELECT_ALL_ORDERED initial_db = (Inr [], initial_db)"
    by auto
  from h n a e b show ?thesis
    by simp
qed

section \<open>Two inserts within one second\<close>

lemma CURRENT_TIMESTAMP_millis [simp]:
  "CURRENT_TIMESTAMP (c\<lparr>millis := ms\<rparr>) = CURRENT_TIMESTAMP c"
  by (simp add: CURRENT_TIMESTAMP_def)

lemma max_rowid_append [simp]: "max_rowid (rs @ [r]) = max (row_id r) (max_rowid rs)"
  by (simp add: max_rowid_def)

lemma max_rowid_Nil [simp]: "max_rowid [] = 0"
  by (simp add: max_rowid_def)

lemma add_info_success:
  assumes "add_info e f submitted d = (Inr [SUCCESS_ADDED], d')"
  shows "submitted \<and> title f \<noteq> [] \<and> \<not> update_fault e \<and> last_issued d < MAX_ROWID \<and>
         d' = d\<lparr>rows := rows d @ [new_row (last_issued d + 1) f (CURRENT_TIMESTAMP (now e))],
                seq := last_issued d + 1\<rparr>"
  using assms
  by (cases "update_fault e")
     (auto simp: add_info_def execute_update_fault execute_update_run split: if_splits)

lemma sorted_order_by_key:
  "sorted_wrt (\<lambda>a b. (created_at b, t b) \<le> (created_at a, t a)) (order_by_created_at_desc t rs)"
proof -
  let ?k = "\<lambda>r. (created_at r, t r)"
  have "sorted (map ?k (sort_key ?k rs))"
    by (rule sorted_sort_key)
  then have "sorted_wrt (\<lambda>a b. ?k a \<le> ?k b) (sort_key ?k rs)"
    by (simp add: sorted_map)
  then show ?thesis
    by (simp add: order_by_created_at_desc_def sorted_wrt_rev)
qed

lemma order_by_precedes:
  assumes "x \<in> set rs" "y \<in> set rs" "(created_at y, t y) < (created_at x, t x)"
  shows "\<exists>i j. i < j \<and> j < length rs \<and> order_by_created_at_desc t rs ! i = x \<and>
           order_by_created_at_desc t rs ! j = y"
proof -
  let ?L = "order_by_created_at_desc t rs"
  from assms(1) obtain i where i: "i < length ?L" "?L ! i = x"
    by (metis in_set_conv_nth set_order_by)
  from assms(2) obtain j where j: "j < length ?L" "?L ! j = y"
    by (metis in_set_conv_nth set_order_by)
  have "\<not> j < i"
  proof
    assume "j < i"
    with i(1) sorted_order_by_key [of t rs]
    have "(created_at (?L ! i), t (?L ! i)) \<le> (created_at (?L ! j), t (?L ! j))"
      unfolding sorted_wrt_iff_nth_less by blast
    then have "(created_at x, t x) \<le> (created_at y, t y)"
      unfolding i(2) j(2) .
    with assms(3) show False
      using leD by blast
  qed
  moreover have "i \<noteq> j"
    using i(2) j(2) assms(3) by auto
  ultimately have "i < j"
    by simp
  with i j show ?thesis
    by auto
qed

text \<open>
  C10. created_at is the text CURRENT_TIMESTAMP gives, which has whole seconds only.
  Two records added one after the other at clock readings that differ only below the
  second get the same created_at (the second record the larger id), and the listing
  ordered by created_at descending can show either of them first: their order is the
  engine's choice, not the order of insertion.
\<close>

theorem same_second_order_undetermined:
  assumes "add_info e1 f1 True d = (Inr [SUCCESS_ADDED], d1)"
    and "add_info e2 f2 True d1 = (Inr [SUCCESS_ADDED], d2)"
    and "now e2 = (now e1)\<lparr>millis := ms\<rparr>"
  shows "\<exists>r1 r2. rows d2 = rows d @ [r1, r2] \<and> info.truncate r1 = f1 \<and> info.truncate r2 = f2 \<and>
           row_id r1 < row_id r2 \<and>
           created_at r1 = CURRENT_TIMESTAMP (now e1) \<and> created_at r2 = created_at r1 \<and>
           (\<exists>t i j. i < j \<and> j < length (rows d2) \<and>
              order_by_created_at_desc t (rows d2) ! i = r1 \<and>
              order_by_created_at_desc t (rows d2) ! j = r2) \<and>
           (\<exists>t i j. i < j \<and> j < length (rows d2) \<and>
              order_by_created_at_desc t (rows d2) ! i = r2 \<and>
              order_by_created_at_desc t (rows d2) ! j = r1)"
proof -
  let ?ts = "CURRENT_TIMESTAMP (now e1)"
  let ?r1 = "new_row (last_issued d + 1) f1 ?ts"
  let ?r2 = "new_row (last_issued d + 2) f2 ?ts"
  from add_info_success [OF assms(1)]
  have d1: "d1 = d\<lparr>rows := rows d @ [?r1], seq := last_issued d + 1\<rparr>"
    by simp
  then have l1: "last_issued d1 = last_issued d + 1"
    by (simp add: last_issued_def new_row_def)
  from add_info_success [OF assms(2)] assms(3) l1 d1
  have rows2: "rows d2 = rows d @ [?r1, ?r2]"
    by (simp add: add.commute)
  have ne: "?r1 \<noteq> ?r2"
    by (simp add: new_row_def)
  have m: "?r1 \<in> set (rows d2)" "?r2 \<in> set (rows d2)"
    using rows2 by simp_all
  have "\<exists>i j. i < j \<and> j < length (rows d2) \<and>
          order_by_created_at_desc (\<lambda>r. if r = ?r1 then 1 else 0) (rows d2) ! i = ?r1 \<and>
          order_by_created_at_desc (\<lambda>r. if r = ?r1 then 1 else 0) (rows d2) ! j = ?r2"
    using m ne by (intro order_by_precedes) (simp_all add: new_row_def)
  then have a: "\<exists>t i j. i < j \<and> j < length (rows d2) \<and>
          order_by_created_at_desc t (rows d2) ! i = ?r1 \<and>
          order_by_created_at_desc t (rows d2) ! j = ?r2"
    by blast
  have "\<exists>i j. i < j \<and> j < length (rows d2) \<and>
          order_by_created_at_desc (\<lambda>r. if r = ?r2 then 1 else 0) (rows d2) ! i = ?r2 \<and>
          order_by_created_at_desc (\<lambda>r. if r = ?r2 then 1 else 0) (rows d2) ! j = ?r1"
    using m ne by (intro order_by_precedes) (simp_all add: new_row_def)
  then have b: "\<exists>t i j. i < j \<and> j < length (rows d2) \<and>
          order_by_created_at_desc t (rows d2) ! i = ?r2 \<and>
          order_by_created_at_desc t (rows d2) ! j = ?r1"
    by blast
  have "rows d2 = rows d @ [?r1, ?r2] \<and> info.truncate ?r1 = f1 \<and> info.truncate ?r2 = f2 \<and>
        row_id ?r1 < row_id ?r2 \<and> created_at ?r1 = ?ts \<and> created_at ?r2 = created_at ?r1"
    using rows2 by (simp add: new_row_def info.truncate_def)
  with a b show ?thesis
    by blast
qed

lemma add_info_db1: "add_info env1 info1 True db1 = (Inr [SUCCESS_ADDED], db2)"
  by (simp add: add_info_def execute_update_run env1_def env0_def CURRENT_TIMESTAMP_clock0
      db1_def db2_def row1_def row2_def last_issued_def max_rowid_def MAX_ROWID_def info1_def
      new_row_def)

theorem same_second_order_undetermined_witness:
  "add_info env0 info0 True initial_db = (Inr [SUCCESS_ADDED], db1) \<and>
   add_info env1 info1 True db1 = (Inr [SUCCESS_ADDED], db2) \<and>
   now env1 = (now env0)\<lparr>millis := 870\<rparr> \<and>
   (\<exists>r1 r2. rows db2 = rows initial_db @ [r1, r2] \<and> row_id r1 < row_id r2 \<and>
      created_at r1 = ''2024-05-17 09:30:07'' \<and> created_at r2 = created_at r1 \<and>
      (\<exists>t i j. i < j \<and> j < length (rows db2) \<and>
         order_by_created_at_desc t (rows db2) ! i = r1 \<and>
         order_by_created_at_desc t (rows db2) ! j = r2) \<and>
      (\<exists>t i j. i < j \<and> j < length (rows db2) \<and>
         order_by_created_at_desc t (rows db2) ! i = r2 \<and>
         order_by_created_at_desc t (rows db2) ! j = r1))"
proof -
  have n: "now env1 = (now env0)\<lparr>millis := 870\<rparr>"
    by (simp add: env1_def env0_def)
  have ts: "CURRENT_TIMESTAMP (now env0) = ''2024-05-17 09:30:07''"
    by (simp add: env0_def CURRENT_TIMESTAMP_clock0)
  show ?thesis
    using same_second_order_undetermined [OF add_info_initial add_info_db1 n]
      add_info_initial add_info_db1 n
    by (simp add: ts) blast
qed

section \<open>Ids and created_at over a sequence of writes\<close>

lemma max_rowid_Max: "max_rowid rs = Max (insert 0 (row_id ` set rs))"
  by (simp add: max_rowid_def Max.set_eq_fold [symmetric])

lemma row_id_le_max_rowid: "r \<in> set rs \<Longrightarrow> row_id r \<le> max_rowid rs"
  by (simp add: max_rowid_Max)

lemma max_rowid_nonneg: "0 \<le> max_rowid rs"
  by (simp add: max_rowid_Max)

lemma max_rowid_filter: "max_rowid (filter P rs) \<le> max_rowid rs"
  unfolding max_rowid_Max by (rule Max_mono) auto

lemma max_rowid_map: "(\<And>r. row_id (g r) = row_id r) \<Longrightarrow> max_rowid (map g rs) = max_rowid rs"
  by (simp add: max_rowid_def comp_def)

lemma map_row_id_update_where:
  "map row_id (map (\<lambda>r. if row_id r = i then set_info f r else r) rs) = map row_id rs"
  by (induction rs) auto

lemma max_rowid_update_where [simp]:
  "max_rowid (map (\<lambda>r. if row_id r = i then set_info f r else r) rs) = max_rowid rs"
  by (simp only: max_rowid_def map_row_id_update_where)

lemma frame_update_where:
  "frame d (d\<lparr>rows := map (\<lambda>r. if row_id r = i then set_info f r else r) (rows d)\<rparr>)"
proof -
  have "\<exists>r \<in> set (rows d). row_id r = row_id r' \<and> created_at r = created_at r'"
    if "r' \<in> set (map (\<lambda>r. if row_id r = i then set_info f r else r) (rows d))" for r'
  proof -
    from that obtain r where "r \<in> set (rows d)"
      and "r' = (if row_id r = i then set_info f r else r)"
      by auto
    then have "row_id r = row_id r' \<and> created_at r = created_at r'"
      by simp
    with \<open>r \<in> set (rows d)\<close> show ?thesis
      by blast
  qed
  then show ?thesis
    by (simp add: frame_def)
qed

lemma key_invariant_update_where:
  "key_invariant d \<Longrightarrow>
   key_invariant (d\<lparr>rows := map (\<lambda>r. if row_id r = i then set_info f r else r) (rows d)\<rparr>)"
  by (simp add: key_invariant_def map_row_id_update_where del: map_map)

lemma step_invariant:
  assumes "execute_update fl c s d = (out, d1)" "key_invariant d"
  shows "key_invariant d1 \<and> seq d \<le> seq d1 \<and> frame d d1 \<and>
         (\<forall>i. out = Inr (Some i) \<longrightarrow> i = seq d1 \<and> seq d < i)"
proof (cases fl)
  case True
  with assms show ?thesis
    by (auto simp: execute_update_fault key_invariant_def frame_def)
next
  case False
  from assms(2) have li: "last_issued d = seq d"
    by (simp add: key_invariant_def last_issued_def)
  show ?thesis
  proof (cases s)
    case (INSERT f)
    from assms(2) have "\<And>r. r \<in> set (rows d) \<Longrightarrow> row_id r \<le> seq d"
      using row_id_le_max_rowid by (fastforce simp: key_invariant_def)
    then have "seq d + 1 \<notin> row_id ` set (rows d)"
      by fastforce
    with assms False INSERT li show ?thesis
      by (auto simp: execute_update_run key_invariant_def frame_def new_row_def
          split: if_splits)
  next
    case (UPDATE f i)
    with assms False have "d1 = d\<lparr>rows := map (\<lambda>r. if row_id r = i then set_info f r else r) (rows d)\<rparr>"
      and "out = Inr None"
      by (simp_all add: execute_update_run)
    with assms(2) show ?thesis
      using frame_update_where [of d i f] key_invariant_update_where [of d i f] by simp
  next
    case (DELETE_BY_ID i)
    have "max_rowid (filter (\<lambda>r. row_id r \<noteq> i) (rows d)) \<le> max_rowid (rows d)"
      by (rule max_rowid_filter)
    with assms False DELETE_BY_ID show ?thesis
      by (auto simp: execute_update_run key_invariant_def frame_def distinct_map_filter)
  next
    case DELETE_ALL
    with assms False max_rowid_nonneg [of "rows d"] show ?thesis
      by (auto simp: execute_update_run key_invariant_def frame_def max_rowid_def)
  qed
qed


lemma frame_refl: "frame d d"
  by (auto simp: frame_def)

lemma frame_trans:
  assumes "frame d d1" "frame d1 d2" "seq d \<le> seq d1"
  shows "frame d d2"
  unfolding frame_def
proof
  fix r2
  assume "r2 \<in> set (rows d2)"
  with assms(2) consider r1 where "r1 \<in> set (rows d1)" "row_id r1 = row_id r2"
      "created_at r1 = created_at r2" | "seq d1 < row_id r2"
    unfolding frame_def by blast
  then show "(\<exists>r \<in> set (rows d). row_id r = row_id r2 \<and> created_at r = created_at r2) \<or>
             seq d < row_id r2"
  proof cases
    case 1
    with assms(1) show ?thesis
      unfolding frame_def by fastforce
  next
    case 2
    with assms(3) show ?thesis
      by simp
  qed
qed

lemma inserted_ids_Cons:
  "inserted_ids (out # outs) = (case out of Inr (Some i) \<Rightarrow> i # inserted_ids outs
                                | _ \<Rightarrow> inserted_ids outs)"
  by (cases out) (auto split: option.splits)

lemma run_invariant:
  assumes "run_updates evs d = (outs, d')" "key_invariant d"
  shows "key_invariant d' \<and> seq d \<le> seq d' \<and> frame d d' \<and>
         sorted_wrt (<) (inserted_ids outs) \<and>
         (\<forall>i \<in> set (inserted_ids outs). seq d < i \<and> i \<le> seq d')"
  using assms
proof (induction evs arbitrary: d outs)
  case Nil
  then show ?case
    by (simp add: frame_refl)
next
  case (Cons ev evs)
  obtain fl c s where ev: "ev = (fl, c, s)"
    by (cases ev)
  obtain out d1 where x: "execute_update fl c s d = (out, d1)"
    by (cases "execute_update fl c s d")
  obtain outs1 d2 where r: "run_updates evs d1 = (outs1, d2)"
    by (cases "run_updates evs d1")
  from Cons.prems(1) ev x r have o: "outs = out # outs1" and "d2 = d'"
    by simp_all
  with r have r': "run_updates evs d1 = (outs1, d')"
    by simp
  from step_invariant [OF x Cons.prems(2)]
  have k1: "key_invariant d1" and s1: "seq d \<le> seq d1" and f1: "frame d d1"
    and i1: "\<And>i. out = Inr (Some i) \<Longrightarrow> i = seq d1 \<and> seq d < i"
    by simp_all
  from Cons.IH [OF r' k1]
  have k2: "key_invariant d'" and s2: "seq d1 \<le> seq d'" and f2: "frame d1 d'"
    and so: "sorted_wrt (<) (inserted_ids outs1)"
    and b: "\<And>i. i \<in> set (inserted_ids outs1) \<Longrightarrow> seq d1 < i \<and> i \<le> seq d'"
    by simp_all
  have f: "frame d d'"
    using f1 f2 s1 by (rule frame_trans)
  have "sorted_wrt (<) (inserted_ids (out # outs1)) \<and>
        (\<forall>i \<in> set (inserted_ids (out # outs1)). seq d < i \<and> i \<le> seq d')"
  proof (cases "\<exists>i. out = Inr (Some i)")
    case True
    then obtain i where i: "out = Inr (Some i)"
      by blast
    with i1 have "i = seq d1" "seq d < i"
      by simp_all
    with i so b s1 s2 show ?thesis
      by (fastforce simp: inserted_ids_Cons)
  next
    case False
    then have "inserted_ids (out # outs1) = inserted_ids outs1"
      by (cases out) (auto split: option.splits)
    with so b s1 show ?thesis
      by fastforce
  qed
  with k2 s1 s2 f o show ?case
    by simp
qed


text \<open>
  C5. Along every sequence of calls of execute_update that starts in a state where the
  key invariant holds (ids distinct and none above the AUTOINCREMENT counter, as on the
  empty database), the ids returned by successful INSERTs are strictly increasing and
  none of them was in use at the start, also across deletions. An INSERT stores
  CURRENT_TIMESTAMP of the engine's clock as created_at (the form has no such field),
  and no later statement changes it: a row that is still there afterwards has the
  created_at it had. add_info with a non-empty title changes the database exactly as
  that INSERT does.
\<close>

theorem insert_ids_increase_created_at_fixed:
  assumes "run_updates evs d = (outs, d')" and "key_invariant d"
  shows "sorted_wrt (<) (inserted_ids outs) \<and>
         (\<forall>i \<in> set (inserted_ids outs). i \<notin> row_id ` set (rows d) \<and> seq d < i) \<and>
         (\<forall>r \<in> set (rows d). \<forall>r' \<in> set (rows d').
            row_id r' = row_id r \<longrightarrow> created_at r' = created_at r) \<and>
         key_invariant d' \<and>
         (\<forall>fl c f i d1. execute_update fl c (INSERT f) d = (Inr (Some i), d1) \<longrightarrow>
            i = seq d + 1 \<and> rows d1 = rows d @ [new_row i f (CURRENT_TIMESTAMP c)]) \<and>
         (\<forall>e f. title f \<noteq> [] \<longrightarrow>
            snd (add_info e f True d) =
              snd (execute_update (update_fault e) (now e) (INSERT f) d))"
proof -
  from run_invariant [OF assms]
  have k: "key_invariant d'" and f: "frame d d'" and so: "sorted_wrt (<) (inserted_ids outs)"
    and b: "\<And>i. i \<in> set (inserted_ids outs) \<Longrightarrow> seq d < i"
    by simp_all
  from assms(2) have le: "\<And>r. r \<in> set (rows d) \<Longrightarrow> row_id r \<le> seq d"
    using row_id_le_max_rowid by (fastforce simp: key_invariant_def)
  have fresh: "\<forall>i \<in> set (inserted_ids outs). i \<notin> row_id ` set (rows d) \<and> seq d < i"
    using b le by fastforce
  have fixed: "\<forall>r \<in> set (rows d). \<forall>r' \<in> set (rows d').
            row_id r' = row_id r \<longrightarrow> created_at r' = created_at r"
  proof (intro ballI impI)
    fix r r'
    assume r: "r \<in> set (rows d)" and r': "r' \<in> set (rows d')" and eq: "row_id r' = row_id r"
    from le [OF r] eq have "\<not> seq d < row_id r'"
      by simp
    with f r' obtain r0 where r0: "r0 \<in> set (rows d)" "row_id r0 = row_id r'"
        "created_at r0 = created_at r'"
      unfolding frame_def by blast
    from assms(2) have "inj_on row_id (set (rows d))"
      by (simp add: key_invariant_def distinct_map)
    with r r0(1,2) eq have "r0 = r"
      by (auto dest: inj_onD)
    with r0(3) show "created_at r' = created_at r"
      by simp
  qed
  from assms(2) have li: "last_issued d = seq d"
    by (simp add: key_invariant_def last_issued_def)
  have ins: "\<forall>fl c f i d1. execute_update fl c (INSERT f) d = (Inr (Some i), d1) \<longrightarrow>
            i = seq d + 1 \<and> rows d1 = rows d @ [new_row i f (CURRENT_TIMESTAMP c)]"
  proof (intro allI impI)
    fix fl c f i d1
    assume "execute_update fl c (INSERT f) d = (Inr (Some i), d1)"
    then show "i = seq d + 1 \<and> rows d1 = rows d @ [new_row i f (CURRENT_TIMESTAMP c)]"
      using li by (cases fl) (auto simp: execute_update_fault execute_update_run split: if_splits)
  qed
  have add: "\<forall>e f. title f \<noteq> [] \<longrightarrow>
            snd (add_info e f True d) =
              snd (execute_update (update_fault e) (now e) (INSERT f) d)"
    by (auto simp: add_info_def split: prod.splits sum.splits)
  from so fresh fixed k ins add show ?thesis
    by blast
qed

lemma run_updates0:
  "run_updates updates0 initial_db =
     ([Inr (Some 1), Inr None, Inr (Some 2)], \<lparr>rows = [row2], seq = 2, open_conns = 0\<rparr>)"
  by (simp add: updates0_def execute_update_run initial_db_def last_issued_def max_rowid_def
      MAX_ROWID_def new_row_def row2_def CURRENT_TIMESTAMP_clock0)

theorem insert_ids_increase_created_at_fixed_witness:
  "run_updates updates0 initial_db =
     ([Inr (Some 1), Inr None, Inr (Some 2)], \<lparr>rows = [row2], seq = 2, open_conns = 0\<rparr>) \<and>
   key_invariant initial_db \<and>
   inserted_ids [Inr (Some 1), Inr None, Inr (Some 2)] = [1, 2] \<and>
   sorted_wrt (<) (inserted_ids [Inr (Some 1), Inr None, Inr (Some 2)]) \<and>
   key_invariant \<lparr>rows = [row2], seq = 2, open_conns = 0\<rparr>"
proof -
  have k: "key_invariant initial_db"
    by (simp add: key_invariant_def initial_db_def max_rowid_def)
  have i: "inserted_ids [Inr (Some 1), Inr None, Inr (Some 2)] = [1, 2]"
    by simp
  from insert_ids_increase_created_at_fixed [OF run_updates0 k] run_updates0 k i
  show ?thesis
    by simp
qed

section \<open>Values are bound, not spliced into the SQL text\<close>

lemma rows_delete_info_by_id:
  "rows (snd (delete_info e (BY_ID i clicked) d)) = rows d \<or>
   rows (snd (delete_info e (BY_ID i clicked) d)) = filter (\<lambda>r. row_id r \<noteq> i) (rows d)"
  by (cases "query_fault e"; cases "check_fault e"; cases "update_fault e")
     (simp_all add: delete_info_def execute_query_fault execute_query_run execute_update_fault
        execute_update_run)

text \<open>
  C6. The SQL text of each write is the same whatever the user typed: the values travel
  in the parameter tuple only, unchanged. So for every input string (quotes, semicolons
  and comment marks included) a successful add stores one new row whose six fields are
  exactly the submitted values and changes nothing else; a successful edit gives
  exactly the rows with the selected id the submitted values, and keeps the other rows
  and the number of rows; a delete by id removes the rows with that id or nothing.
\<close>

theorem writes_bind_parameters:
  "sql_text (INSERT f) = sql_text (INSERT g) \<and>
   sql_text (UPDATE f i) = sql_text (UPDATE g j) \<and>
   sql_text (DELETE_BY_ID i) = sql_text (DELETE_BY_ID j) \<and>
   sql_params (INSERT f) =
     map P_str [title f, category f, notes f, priority f, status f, tags f] \<and>
   sql_params (UPDATE f i) =
     map P_str [title f, category f, notes f, priority f, status f, tags f] @ [P_int i] \<and>
   sql_params (DELETE_BY_ID i) = [P_int i] \<and>
   (add_info e f True d = (Inr [SUCCESS_ADDED], d') \<longrightarrow>
      (\<exists>r. rows d' = rows d @ [r] \<and> info.truncate r = f)) \<and>
   (edit_info e choice f submitted cancel d = (Inr [SUCCESS_UPDATED], d') \<longrightarrow>
      length (rows d') = length (rows d) \<and>
      (\<exists>r0 \<in> set (rows d). \<forall>k < length (rows d).
         if row_id (rows d ! k) = row_id r0
         then rows d' ! k = set_info f (rows d ! k) \<and> info.truncate (rows d' ! k) = f
         else rows d' ! k = rows d ! k)) \<and>
   (delete_info e (BY_ID i clicked) d = (out, d') \<longrightarrow>
      rows d' = rows d \<or> rows d' = filter (\<lambda>r. row_id r \<noteq> i) (rows d))"
proof (intro conjI impI)
  assume a: "add_info e f True d = (Inr [SUCCESS_ADDED], d')"
  from add_info_success [OF a] show "\<exists>r. rows d' = rows d @ [r] \<and> info.truncate r = f"
    by simp
next
  assume s: "edit_info e choice f submitted cancel d = (Inr [SUCCESS_UPDATED], d')"
  let ?r = "order_by_created_at_desc (tie e) (rows d) ! choice"
  from edit_info_success [OF s] have c: "choice < length (rows d)"
    and d': "rows d' = map (\<lambda>r. if row_id r = row_id ?r then set_info f r else r) (rows d)"
    by simp_all
  from d' show "length (rows d') = length (rows d)"
    by simp
  from c have "?r \<in> set (order_by_created_at_desc (tie e) (rows d))"
    by (intro nth_mem) simp
  then have "?r \<in> set (rows d)"
    by simp
  moreover have "\<forall>k < length (rows d).
         if row_id (rows d ! k) = row_id ?r
         then rows d' ! k = set_info f (rows d ! k) \<and> info.truncate (rows d' ! k) = f
         else rows d' ! k = rows d ! k"
    using d' by simp
  ultimately show "\<exists>r0 \<in> set (rows d). \<forall>k < length (rows d).
         if row_id (rows d ! k) = row_id r0
         then rows d' ! k = set_info f (rows d ! k) \<and> info.truncate (rows d' ! k) = f
         else rows d' ! k = rows d ! k"
    by blast
next
  assume "delete_info e (BY_ID i clicked) d = (out, d')"
  then show "rows d' = rows d \<or> rows d' = filter (\<lambda>r. row_id r \<noteq> i) (rows d)"
    using rows_delete_info_by_id [of e i clicked d] by simp
qed (simp_all add: info_params_def)

lemma add_info_inject:
  "add_info env0 info_inject True db1 =
     (Inr [SUCCESS_ADDED],
      \<lparr>rows = [row1, new_row 2 info_inject ''2024-05-17 09:30:07''], seq = 2, open_conns = 0\<rparr>)"
  by (simp add: add_info_def execute_update_run env0_def CURRENT_TIMESTAMP_clock0
      db1_def row1_def last_issued_def max_rowid_def MAX_ROWID_def info_inject_def new_row_def)

theorem writes_bind_parameters_witness:
  "add_info env0 info_inject True db1 =
     (Inr [SUCCESS_ADDED],
      \<lparr>rows = [row1, new_row 2 info_inject ''2024-05-17 09:30:07''], seq = 2, open_conns = 0\<rparr>) \<and>
   (\<exists>r. rows \<lparr>rows = [row1, new_row 2 info_inject ''2024-05-17 09:30:07''], seq = 2,
               open_conns = 0\<rparr> = rows db1 @ [r] \<and>
        title r = ''x'); DROP TABLE personal_info; --'') \<and>
   sql_text (INSERT info_inject) = sql_text (INSERT info0)"
proof -
  from writes_bind_parameters [where e = env0 and f = info_inject and d = db1 and g = info0
      and d' = "\<lparr>rows = [row1, new_row 2 info_inject ''2024-05-17 09:30:07''], seq = 2,
                 open_conns = 0\<rparr>"] add_info_inject
  obtain r where "rows \<lparr>rows = [row1, new_row 2 info_inject ''2024-05-17 09:30:07''], seq = 2,
               open_conns = 0\<rparr> = rows db1 @ [r]" and "info.truncate r = info_inject"
    and "sql_text (INSERT info_inject) = sql_text (INSERT info0)"
    by blast
  moreover from this(2) have "title r = ''x'); DROP TABLE personal_info; --''"
    by (cases r) (simp add: info.truncate_def info_inject_def)
  ultimately show ?thesis
    using add_info_inject by blast
qed

section \<open>The CSV export\<close>

lemma csv_chars [simp]:
  "COMMA \<noteq> QUOTE" "COMMA \<noteq> LF" "QUOTE \<noteq> LF" "QUOTE \<noteq> COMMA" "LF \<noteq> COMMA" "LF \<noteq> QUOTE"
  by (simp_all add: COMMA_def QUOTE_def LF_def)

lemma reader_in_field:
  assumes "\<not> list_ex special cs"
  shows "csv_reader IN_FIELD fld cells recs (cs @ COMMA # rest) =
           csv_reader START_FIELD [] (cells @ [fld @ cs]) recs rest"
    and "csv_reader IN_FIELD fld cells recs (cs @ LF # rest) =
           csv_reader START_FIELD [] [] (recs @ [cells @ [fld @ cs]]) rest"
  using assms by (induction cs arbitrary: fld) (simp_all add: special_def)

lemma reader_in_quoted_field:
  "csv_reader IN_QUOTED_FIELD fld cells recs (double_quotes s @ QUOTE # COMMA # rest) =
     csv_reader START_FIELD [] (cells @ [fld @ s]) recs rest"
  "csv_reader IN_QUOTED_FIELD fld cells recs (double_quotes s @ QUOTE # LF # rest) =
     csv_reader START_FIELD [] [] (recs @ [cells @ [fld @ s]]) rest"
  by (induction s arbitrary: fld) (simp_all add: double_quotes_def)

lemma reader_field_comma:
  "csv_reader START_FIELD fld cells recs (csv_field s @ COMMA # rest) =
     csv_reader START_FIELD [] (cells @ [s]) recs rest"
proof (cases "list_ex special s")
  case True
  then show ?thesis
    using reader_in_quoted_field(1) [of "[]" cells recs s rest] by (simp add: csv_field_def)
next
  case False
  show ?thesis
  proof (cases s)
    case Nil
    then show ?thesis
      by (simp add: csv_field_def)
  next
    case (Cons c cs)
    with False have c: "\<not> special c" and cs: "\<not> list_ex special cs"
      by simp_all
    from c have "c \<noteq> QUOTE" "c \<noteq> COMMA" "c \<noteq> LF"
      by (auto simp: special_def)
    with False Cons show ?thesis
      using reader_in_field(1) [OF cs, of "[c]" cells recs rest] by (simp add: csv_field_def)
  qed
qed

lemma reader_field_lf:
  assumes "cells \<noteq> []"
  shows "csv_reader START_FIELD fld cells recs (csv_field s @ LF # rest) =
     csv_reader START_FIELD [] [] (recs @ [cells @ [s]]) rest"
proof (cases "list_ex special s")
  case True
  then show ?thesis
    using reader_in_quoted_field(2) [of "[]" cells recs s rest] by (simp add: csv_field_def)
next
  case False
  show ?thesis
  proof (cases s)
    case Nil
    with assms show ?thesis
      by (simp add: csv_field_def)
  next
    case (Cons c cs)
    with False have c: "\<not> special c" and cs: "\<not> list_ex special cs"
      by simp_all
    from c have "c \<noteq> QUOTE" "c \<noteq> COMMA" "c \<noteq> LF"
      by (auto simp: special_def)
    with False Cons show ?thesis
      using reader_in_field(2) [OF cs, of "[c]" cells recs rest] by (simp add: csv_field_def)
  qed
qed

lemma reader_line:
  assumes "fs \<noteq> []" "cells \<noteq> [] \<or> 2 \<le> length fs"
  shows "csv_reader START_FIELD fld cells recs (join_comma (map csv_field fs) @ LF # rest) =
           csv_reader START_FIELD [] [] (recs @ [cells @ fs]) rest"
  using assms
proof (induction fs arbitrary: cells fld)
  case Nil
  then show ?case by simp
next
  case (Cons x fs)
  show ?case
  proof (cases fs)
    case Nil
    with Cons.prems show ?thesis
      by (simp add: reader_field_lf)
  next
    case (Cons y ys)
    have "csv_reader START_FIELD [] (cells @ [x]) recs
            (join_comma (map csv_field fs) @ LF # rest) =
          csv_reader START_FIELD [] [] (recs @ [(cells @ [x]) @ fs]) rest"
      using Cons by (intro Cons.IH) simp_all
    with Cons show ?thesis
      by (simp add: reader_field_comma)
  qed
qed

lemma reader_lines:
  assumes "\<forall>l \<in> set ls. 2 \<le> length l"
  shows "csv_reader START_FIELD [] [] recs (concat (map csv_line ls)) = recs @ ls"
  using assms
proof (induction ls arbitrary: recs)
  case Nil
  then show ?case by simp
next
  case (Cons l ls)
  then have "l \<noteq> []" "2 \<le> length l"
    by auto
  then have "csv_reader START_FIELD [] [] recs
               (join_comma (map csv_field l) @ LF # concat (map csv_line ls)) =
             csv_reader START_FIELD [] [] (recs @ [[] @ l]) (concat (map csv_line ls))"
    by (intro reader_line) simp_all
  moreover have "concat (map csv_line (l # ls)) =
      join_comma (map csv_field l) @ LF # concat (map csv_line ls)"
    by (simp add: csv_line_def)
  moreover have "csv_reader START_FIELD [] [] (recs @ [l]) (concat (map csv_line ls)) =
      (recs @ [l]) @ ls"
    using Cons.prems by (intro Cons.IH) simp
  ultimately show ?case
    by simp
qed

lemma reader_to_csv:
  "csv_reader START_FIELD [] [] [] (to_csv df) = COLUMNS # map row_cells df"
proof -
  have "\<forall>l \<in> set (COLUMNS # map row_cells df). 2 \<le> length l"
    by (auto simp: COLUMNS_def row_cells_def)
  from reader_lines [OF this, of "[]"] show ?thesis
    by (simp add: to_csv_def)
qed

lemma cells_info_row_cells: "cells_info (row_cells r) = Some (info.truncate r)"
  by (simp add: row_cells_def info.truncate_def)

lemma read_csv_to_csv: "read_csv (to_csv df) = map (\<lambda>r. Some (info.truncate r)) df"
  by (simp add: read_csv_def reader_to_csv cells_info_row_cells)


lemma to_csv_example:
  "to_csv [row_csv, row_csv2] =
     ''id,title,category,notes,priority,status,tags,created_at'' @ [LF] @
     ''3,'' @ [QUOTE] @ ''a,b'' @ [QUOTE] @ '',c,'' @
       [QUOTE] @ ''say '' @ [QUOTE, QUOTE] @ ''hi'' @ [QUOTE, QUOTE, LF] @ ''bye'' @ [QUOTE] @
       '',p,s,,2024-05-17 09:30:07'' @ [LF] @
     ''-12,'' @ [QUOTE] @ ''x'' @ [CR] @ ''y'' @ [QUOTE] @ '',,,,,'' @
       [QUOTE] @ ''t'' @ [QUOTE, QUOTE, QUOTE] @ '',2024-05-17 09:30:08'' @ [LF]"
  by (simp add: to_csv_def csv_line_def COLUMNS_def row_cells_def row_csv_def row_csv2_def
      csv_field_def special_def double_quotes_def str_int_def digit_def
      QUOTE_def COMMA_def LF_def CR_def)

text \<open>
  C9. For every list of rows, reading the exported CSV text back gives the header row
  of field names followed by one record per row, in the same order, and the six form
  fields of each record are those of the row: embedded commas, quotes, line feeds and
  carriage returns come back unchanged. So the exported text holds the same
  (title, category, notes, priority, status, tags) tuples as the table.
  add_download_section offers this text for the whole table, when the table has rows.
\<close>

theorem csv_export_round_trip:
  "csv_reader START_FIELD [] [] [] (to_csv df) = COLUMNS # map row_cells df \<and>
   read_csv (to_csv df) = map (\<lambda>r. Some (info.truncate r)) df \<and>
   add_download_section e d =
     (if query_fault e then (Inl SqliteError, get_connection d)
      else if rows d = [] then (Inr [], d)
      else (Inr [DOWNLOAD_CSV (to_csv (rows d))], d))"
  by (simp add: reader_to_csv read_csv_to_csv add_download_section_def execute_query_fault
      execute_query_run)

end
